theory Spec2Isabelle
  imports Main "HOL-Library.Char_ord" "HOL-Library.List_Lexorder"
begin

section \<open>Text\<close>

text \<open>
  Python strings are modelled as \<open>string\<close>, one \<open>char\<close> per code point below 256.
  Case conversion acts on the ASCII letters, as \<open>str.lower\<close> and \<open>str.upper\<close> do on
  ASCII text; \<open>str.strip\<close> removes the code points below 256 that \<open>str.isspace\<close> accepts.
\<close>

definition lower_char :: "char \<Rightarrow> char" where
  "lower_char c =
     (case map_of (zip ''ABCDEFGHIJKLMNOPQRSTUVWXYZ'' ''abcdefghijklmnopqrstuvwxyz'') c of
        None \<Rightarrow> c | Some d \<Rightarrow> d)"

definition upper_char :: "char \<Rightarrow> char" where
  "upper_char c =
     (case map_of (zip ''abcdefghijklmnopqrstuvwxyz'' ''ABCDEFGHIJKLMNOPQRSTUVWXYZ'') c of
        None \<Rightarrow> c | Some d \<Rightarrow> d)"

definition py_lower :: "string \<Rightarrow> string" where
  "py_lower s = map lower_char s"

definition py_upper :: "string \<Rightarrow> string" where
  "py_upper s = map upper_char s"

definition is_space :: "char \<Rightarrow> bool" where
  "is_space c = ((of_char c :: nat) \<in> set [9, 10, 11, 12, 13, 28, 29, 30, 31, 32, 133, 160])"

definition py_lstrip :: "string \<Rightarrow> string" where
  "py_lstrip s = dropWhile is_space s"

definition py_rstrip :: "string \<Rightarrow> string" where
  "py_rstrip s = rev (dropWhile is_space (rev s))"

definition py_strip :: "string \<Rightarrow> string" where
  "py_strip s = py_rstrip (py_lstrip s)"

definition startswith :: "string \<Rightarrow> string \<Rightarrow> bool" where
  "startswith s p = (take (length p) s = p)"

text \<open>\<open>needle in hay\<close> on strings: the needle occurs as a contiguous run.\<close>

fun py_contains :: "string \<Rightarrow> string \<Rightarrow> bool" where
  "py_contains n [] = (n = [])"
| "py_contains n (c # cs) = (take (length n) (c # cs) = n \<or> py_contains n cs)"

text \<open>\<open>s.split(sep)\<close> for a one-character separator.\<close>

fun py_split :: "char \<Rightarrow> string \<Rightarrow> string list" where
  "py_split sep [] = [[]]"
| "py_split sep (c # cs) =
     (if c = sep then [] # py_split sep cs
      else (case py_split sep cs of [] \<Rightarrow> [[c]] | p # ps \<Rightarrow> (c # p) # ps))"

text \<open>\<open>sep.join(parts)\<close>.\<close>

fun py_join :: "string \<Rightarrow> string list \<Rightarrow> string" where
  "py_join sep [] = []"
| "py_join sep [p] = p"
| "py_join sep (p # q # ps) = p @ sep @ py_join sep (q # ps)"

text \<open>\<open>str(n)\<close> for a length.\<close>

fun str_nat :: "nat \<Rightarrow> string" where
  "str_nat n =
     (if n < 10 then [''0123456789'' ! n]
      else str_nat (n div 10) @ [''0123456789'' ! (n mod 10)])"

declare str_nat.simps [simp del]

definition is_http_url :: "string \<Rightarrow> bool" where
  "is_http_url v = (startswith v ''http://'' \<or> startswith v ''https://'')"


section \<open>Dictionaries\<close>

text \<open>
  A \<open>dict\<close> of strings keeps its keys in insertion order, which \<open>sorted\<close> (a stable
  sort) lets show through; it is an association list with one entry per key.
  Assigning to a present key keeps the key's place, assigning to a new key appends it.
\<close>

type_synonym attrs = "(string \<times> string) list"

definition dget :: "attrs \<Rightarrow> string \<Rightarrow> string option" where
  "dget d k = map_of d k"

definition dhas :: "attrs \<Rightarrow> string \<Rightarrow> bool" where
  "dhas d k = (k \<in> set (map fst d))"

text \<open>\<open>d.get(k, "")\<close>; \<open>_safe\<close> of a missing entry is the empty string too.\<close>

definition dgets :: "attrs \<Rightarrow> string \<Rightarrow> string" where
  "dgets d k = (case map_of d k of None \<Rightarrow> [] | Some v \<Rightarrow> v)"

definition dset :: "attrs \<Rightarrow> string \<Rightarrow> string \<Rightarrow> attrs" where
  "dset d k v =
     (if k \<in> set (map fst d) then map (\<lambda>(a, b). if a = k then (a, v) else (a, b)) d
      else d @ [(k, v)])"

text \<open>\<open>d.pop(k, None)\<close>.\<close>

definition dpop :: "attrs \<Rightarrow> string \<Rightarrow> attrs" where
  "dpop d k = filter (\<lambda>(a, b). a \<noteq> k) d"

definition dkeys :: "attrs \<Rightarrow> string list" where
  "dkeys d = map fst d"


section \<open>The host's objects\<close>

text \<open>
  A read of a host attribute either raises or yields a value. Where the source treats
  a raising read like a missing one the field is an \<open>option\<close> only: \<open>None\<close> stands for
  \<open>None\<close>, a missing attribute and a read that raised alike.
\<close>

datatype 'a read = Raises | Got 'a

text \<open>
  \<open>IA2Attributes\<close>: a \<open>dict\<close> (its items in iteration order), a \<open>str\<close>, or neither
  (missing, \<open>None\<close>, or the read raised).
\<close>

datatype ia2_source = IA2_Absent | IA2_Dict "(string \<times> string) list" | IA2_Str string

text \<open>A member of \<open>controlTypes.State\<close>, and of \<open>controlTypes.Role\<close>.\<close>

datatype state_const =
  REQUIRED | FOCUSABLE | FOCUSED | SELECTED | EXPANDED | COLLAPSED | CHECKED | PRESSED | ON
  | OtherState nat

datatype role_const = BUTTON | TOGGLEBUTTON | OtherRole nat

text \<open>
  A state of an object: the constant, and what \<open>str\<close> makes of it (its display name).
\<close>

type_synonym state = "state_const \<times> string"

text \<open>
  The tree interceptor of an object: whether it is a \<open>BrowseModeTreeInterceptor\<close>,
  whether it has the two browse-mode attributes, its four URL attributes in the order
  \<open>documentURL\<close>, \<open>URL\<close>, \<open>url\<close>, \<open>documentConstantIdentifier\<close>, and the object at the
  caret (\<open>makeTextInfo(POSITION_CARET).NVDAObjectAtStart\<close>).
\<close>

record tree_interceptor =
  is_BrowseModeTreeInterceptor :: bool
  has_passThrough :: bool
  has_quickNav_nextHeading :: bool
  ti_urls :: "string option read list"
  NVDAObjectAtStart :: "nat option"

text \<open>
  One helper of an app module: not there (or not callable), raising when called (or
  when looked up), or returning a value.
\<close>

datatype am_helper = NotCallable | CallRaises | Returns "string option"

text \<open>
  An object of the host. Objects are referred to by their identity, a number; the
  links to other objects hold identities. \<open>IAccessibleObject\<close> is \<open>None\<close> when the object
  has no MSAA object, else the outcome of \<open>accValue(0)\<close>. \<open>appModule\<close> holds the helpers
  \<open>getBrowserURL\<close>, \<open>getCurrentURL\<close>, \<open>getCurrentDocumentURL\<close>, \<open>getDocumentURL\<close> in
  this order. A span property is \<open>None\<close> when its value is false in Python's sense,
  else its \<open>str\<close>.
\<close>

record node =
  IA2Attributes :: ia2_source
  obj_parent :: "nat option read"
  firstChild :: "nat option"
  nextSibling :: "nat option"
  obj_name :: "string option"
  obj_description :: "string option"
  obj_value :: "string option read"
  obj_states :: "state list"
  obj_role :: role_const
  colSpan :: "string option read"
  colspan :: "string option read"
  rowSpan :: "string option read"
  rowspan :: "string option read"
  treeInterceptor :: "tree_interceptor option"
  appModule :: "am_helper list option"
  IAccessibleObject :: "string option read option"

text \<open>
  The host at the moment of one inspection: its objects, the focus and navigator
  objects (\<open>None\<close>: no object, or the call raised), and the translation function \<open>_\<close>.
\<close>

record host =
  node_of :: "nat \<Rightarrow> node"
  getFocusObject :: "nat option"
  getNavigatorObject :: "nat option"
  gettext :: "string \<Rightarrow> string"

text \<open>\<open>_safe\<close>: \<open>None\<close> becomes the empty string.\<close>

definition safe :: "string option \<Rightarrow> string" where
  "safe v = (case v of None \<Rightarrow> [] | Some s \<Rightarrow> s)"


subsection \<open>A sample page\<close>

text \<open>
  An image inside a link inside a document, with an untagged object between the image
  and the link; the image is at the browse-mode caret.
\<close>

definition blank_node :: node where
  "blank_node =
     \<lparr>IA2Attributes = IA2_Absent, obj_parent = Got None, firstChild = None, nextSibling = None,
      obj_name = None, obj_description = None, obj_value = Got None, obj_states = [],
      obj_role = OtherRole 0, colSpan = Got None, colspan = Got None, rowSpan = Got None,
      rowspan = Got None, treeInterceptor = None, appModule = None, IAccessibleObject = None\<rparr>"

definition element :: "(string \<times> string) list \<Rightarrow> nat option \<Rightarrow> node" where
  "element items p = blank_node\<lparr>IA2Attributes := IA2_Dict items, obj_parent := Got p\<rparr>"

definition sample_nodes :: "nat \<Rightarrow> node" where
  "sample_nodes i =
     (if i = 0 then element [(''tag'', ''img''), (''src'', ''logo.png'')] (Some 1)
      else if i = 1 then element [] (Some 2)
      else if i = 2 then element [(''tag'', ''a''), (''href'', ''https://example.com/'')] (Some 3)
      else if i = 3 then element [(''tag'', ''#document'')] (Some 4)
      else blank_node)"

definition sample_host :: host where
  "sample_host =
     \<lparr>node_of = sample_nodes, getFocusObject = Some 0, getNavigatorObject = Some 0,
      gettext = (\<lambda>s. s)\<rparr>"


text \<open>A host with one object, which has the focus and is the navigator object.\<close>

definition host_of :: "node \<Rightarrow> host" where
  "host_of n = \<lparr>node_of = (\<lambda>i. n), getFocusObject = Some 0, getNavigatorObject = Some 0,
                gettext = (\<lambda>s. s)\<rparr>"



text \<open>A \<open>span\<close> with the role \<open>link\<close> that exposes \<open>aria-pressed\<close>.\<close>

definition span_link :: node where
  "span_link =
     (element [(''tag'', ''span''), (''role'', ''link''), (''aria-pressed'', ''true'')] None)
       \<lparr>obj_name := Some ''More''\<rparr>"


text \<open>An object outside any document: no tree interceptor, no tag, no URL anywhere.\<close>

definition desktop_host :: host where
  "desktop_host = host_of (blank_node\<lparr>obj_name := Some ''Desktop''\<rparr>)"


section \<open>Attribute extraction\<close>

definition describedby_spellings :: "string list" where
  "describedby_spellings = [''aria-describedby'', ''describedby'']"

definition checked_spellings :: "string list" where
  "checked_spellings = [''aria-checked'', ''checked'', ''ariachecked'']"

text \<open>
  The loop of \<open>_ia2_attrs\<close> over the items of a \<open>dict\<close>. \<open>ksl\<close> is assigned only for a
  key that is not blank, so a blank key is treated under the \<open>ksl\<close> of the item before
  it (\<open>Some\<close>), and a blank first key reads an unbound variable (\<open>None\<close>): the error is
  caught by the enclosing \<open>try\<close>, which abandons the loop with what it has stored.
\<close>

fun ia2_dict_loop :: "(string \<times> string) list \<Rightarrow> string option \<Rightarrow> attrs \<Rightarrow> attrs" where
  "ia2_dict_loop [] ksl out = out"
| "ia2_dict_loop ((k, v) # rest) ksl out =
     (let ks = py_strip k;
          ksl' = (if ks \<noteq> [] then Some (py_lower ks) else ksl)
      in case ksl' of
           None \<Rightarrow> out
         | Some l \<Rightarrow>
             (let ks' = (if l \<in> set describedby_spellings then ''describedby''
                         else if l \<in> set checked_spellings then ''checked''
                         else ks)
              in ia2_dict_loop rest ksl' (dset out ks' (py_strip v))))"

text \<open>The loop over the parts of a string of \<open>key:value\<close> entries separated by \<open>;\<close>.\<close>

fun ia2_str_loop :: "string list \<Rightarrow> attrs \<Rightarrow> attrs" where
  "ia2_str_loop [] out = out"
| "ia2_str_loop (p # ps) out =
     (if CHR '':'' \<in> set p then
        (let k = takeWhile (\<lambda>c. c \<noteq> CHR '':'') p;
             v = tl (dropWhile (\<lambda>c. c \<noteq> CHR '':'') p);
             ks = py_strip k;
             ksl = py_lower ks;
             ks' = (if ksl \<in> set describedby_spellings then ''describedby'' else ks)
         in ia2_str_loop ps (dset out ks' (py_strip v)))
      else ia2_str_loop ps out)"

definition ia2_raw :: "ia2_source \<Rightarrow> attrs" where
  "ia2_raw src =
     (case src of
        IA2_Absent \<Rightarrow> []
      | IA2_Dict items \<Rightarrow> ia2_dict_loop items None []
      | IA2_Str s \<Rightarrow>
          (if py_strip s \<noteq> [] then
             ia2_str_loop (filter (\<lambda>p. p \<noteq> []) (map py_strip (py_split (CHR '';'') s))) []
           else []))"

text \<open>\<open>formControlName\<close> in any other spelling is renamed, key by key over a snapshot.\<close>

fun formcontrolname_loop :: "string list \<Rightarrow> attrs \<Rightarrow> attrs" where
  "formcontrolname_loop [] out = out"
| "formcontrolname_loop (k # ks) out =
     (if py_lower k = ''formcontrolname'' \<and> k \<noteq> ''formcontrolname''
      then formcontrolname_loop ks (dset (dpop out k) ''formcontrolname'' (dgets out k))
      else formcontrolname_loop ks out)"

text \<open>
  The link refinement: an \<open>a\<close> without \<open>href\<close> whose value is an absolute HTTP(S) URL
  reports the value as \<open>href\<close>.
\<close>

definition link_refinement :: "attrs \<Rightarrow> attrs" where
  "link_refinement out =
     (if py_lower (py_strip (dgets out ''tag'')) = ''a'' then
        (let href = py_strip (dgets out ''href'');
             v = py_strip (dgets out ''value'')
         in if href = [] \<and> is_http_url v
            then dpop (dset out ''href'' v) ''value''
            else out)
      else out)"

text \<open>
  The second part of \<open>_ia2_attrs\<close>: \<open>orientation\<close> and \<open>valuetext\<close> from their ARIA
  keys, the renaming of \<open>formControlName\<close>, the value, and the link refinement.
\<close>

definition enrich_aria :: "attrs \<Rightarrow> attrs" where
  "enrich_aria out0 =
     (let out1 = (if \<not> dhas out0 ''orientation'' \<and> dhas out0 ''aria-orientation''
                  then dset out0 ''orientation'' (py_strip (dgets out0 ''aria-orientation''))
                  else out0)
      in if \<not> dhas out1 ''valuetext'' \<and> dhas out1 ''aria-valuetext''
         then dset out1 ''valuetext'' (py_strip (dgets out1 ''aria-valuetext''))
         else out1)"

text \<open>
  The value: from \<open>aria-valuenow\<close>, else from \<open>aria-valuetext\<close>, else the object's own.
  \<open>None\<close>: the read of the object's value raised.
\<close>

definition enrich_value :: "node \<Rightarrow> attrs \<Rightarrow> attrs option" where
  "enrich_value obj out =
     (if dhas out ''value'' then Some out
      else if py_strip (dgets out ''aria-valuenow'') \<noteq> []
        then Some (dset out ''value'' (py_strip (dgets out ''aria-valuenow'')))
      else if py_strip (dgets out ''aria-valuetext'') \<noteq> []
        then Some (dset out ''value'' (py_strip (dgets out ''aria-valuetext'')))
      else (case obj_value obj of
              Raises \<Rightarrow> None
            | Got v \<Rightarrow>
                (let vs = py_strip (safe v)
                 in Some (if vs \<noteq> [] then dset out ''value'' vs else out))))"

text \<open>
  A read of the object's value that raises leaves the enclosing \<open>try\<close>, and the link
  refinement with it.
\<close>

definition ia2_enrich :: "node \<Rightarrow> attrs \<Rightarrow> attrs" where
  "ia2_enrich obj out0 =
     (let out = formcontrolname_loop (dkeys (enrich_aria out0)) (enrich_aria out0)
      in case enrich_value obj out of
           None \<Rightarrow> out
         | Some out' \<Rightarrow> link_refinement out')"

definition ia2_attrs :: "node \<Rightarrow> attrs" where
  "ia2_attrs obj = ia2_enrich obj (ia2_raw (IA2Attributes obj))"

text \<open>\<open>_tag\<close>.\<close>

definition tag_of :: "node \<Rightarrow> string" where
  "tag_of obj = py_lower (py_strip (dgets (ia2_attrs obj) ''tag''))"


text \<open>
  Alias normalisation as a function of the trimmed key: what the loop over a
  structured mapping does to a key that is not blank, and what the loop over a string
  of entries does to the key of a part.
\<close>

definition alias_key :: "string \<Rightarrow> string" where
  "alias_key ks =
     (if py_lower ks \<in> set describedby_spellings then ''describedby''
      else if py_lower ks \<in> set checked_spellings then ''checked''
      else ks)"

definition alias_describedby :: "string \<Rightarrow> string" where
  "alias_describedby ks =
     (if py_lower ks \<in> set describedby_spellings then ''describedby'' else ks)"

definition part_key :: "string \<Rightarrow> string" where
  "part_key p = py_strip (takeWhile (\<lambda>c. c \<noteq> CHR '':'') p)"

text \<open>
  A structured mapping without blank keys; and a mapping as alias normalisation
  leaves it: one entry per key, keys trimmed, not empty and normalised, values trimmed.
\<close>

definition nonblank_keys :: "(string \<times> string) list \<Rightarrow> bool" where
  "nonblank_keys items = list_all (\<lambda>(k, v). py_strip k \<noteq> []) items"

definition normal_dict :: "attrs \<Rightarrow> bool" where
  "normal_dict d =
     (distinct (dkeys d)
      \<and> (\<forall>(k, v) \<in> set d. py_strip k = k \<and> k \<noteq> [] \<and> alias_key k = k \<and> py_strip v = v))"

text \<open>Every value of an extracted mapping is trimmed.\<close>

definition stripped_values :: "attrs \<Rightarrow> bool" where
  "stripped_values d = (\<forall>(k, v) \<in> set d. py_strip v = v)"


section \<open>The ancestry walker\<close>

text \<open>
  \<open>_dom_chain_with_tags\<close>: the loop \<open>for _ in range(max_depth)\<close>, with the current
  object and the chain so far. A parent read that raises ends the walk at the next
  round, like a missing parent.
\<close>

fun chain_loop :: "host \<Rightarrow> nat \<Rightarrow> nat option \<Rightarrow> nat list \<Rightarrow> nat list" where
  "chain_loop h 0 cur chain = chain"
| "chain_loop h (Suc n) None chain = chain"
| "chain_loop h (Suc n) (Some c) chain =
     (let a = ia2_attrs (node_of h c);
          up = (case obj_parent (node_of h c) of Raises \<Rightarrow> None | Got p \<Rightarrow> p)
      in if dgets a ''tag'' \<noteq> [] then
           (if py_lower (py_strip (dgets a ''tag'')) = ''#document'' then chain @ [c]
            else chain_loop h n up (chain @ [c]))
         else chain_loop h n up chain)"

definition dom_chain_with_tags :: "host \<Rightarrow> nat option \<Rightarrow> nat \<Rightarrow> nat list" where
  "dom_chain_with_tags h obj max_depth = chain_loop h max_depth obj []"

definition default_max_depth :: nat where
  "default_max_depth = 40"

text \<open>
  The objects the walker looks at, in order: the starting object and its ancestors,
  as far as the depth budget and the parent links go, tagged or not.
\<close>

fun visited :: "host \<Rightarrow> nat \<Rightarrow> nat option \<Rightarrow> nat list" where
  "visited h 0 cur = []"
| "visited h (Suc n) None = []"
| "visited h (Suc n) (Some c) =
     c # visited h n (case obj_parent (node_of h c) of Raises \<Rightarrow> None | Got p \<Rightarrow> p)"


section \<open>URL resolution\<close>

definition find_nearest_tag :: "host \<Rightarrow> nat list \<Rightarrow> string \<Rightarrow> nat option" where
  "find_nearest_tag h chain tag_name =
     find (\<lambda>obj. tag_of (node_of h obj) = py_lower tag_name) chain"

text \<open>\<open>_try_acc_value_url\<close>: the MSAA value, when it is an absolute HTTP(S) URL.\<close>

definition try_acc_value_url :: "node \<Rightarrow> string" where
  "try_acc_value_url obj =
     (case IAccessibleObject obj of
        None \<Rightarrow> []
      | Some Raises \<Rightarrow> []
      | Some (Got v) \<Rightarrow> (let s = py_strip (safe v) in if is_http_url s then s else []))"

text \<open>
  \<open>_try_tree_interceptor_url\<close>: the first URL attribute of the tree interceptor that
  is an absolute HTTP(S) URL; a read that raises ends the search.
\<close>

fun ti_url_loop :: "string option read list \<Rightarrow> string" where
  "ti_url_loop [] = []"
| "ti_url_loop (Raises # rest) = []"
| "ti_url_loop (Got v # rest) =
     (let s = py_strip (safe v) in if is_http_url s then s else ti_url_loop rest)"

definition try_tree_interceptor_url :: "node \<Rightarrow> string" where
  "try_tree_interceptor_url obj =
     (case treeInterceptor obj of None \<Rightarrow> [] | Some ti \<Rightarrow> ti_url_loop (ti_urls ti))"

text \<open>
  \<open>_try_appmodule_url\<close>: the first helper of the app module that returns an absolute
  HTTP(S) URL; a helper that raises ends the search.
\<close>

fun am_loop :: "am_helper list \<Rightarrow> string" where
  "am_loop [] = []"
| "am_loop (NotCallable # rest) = am_loop rest"
| "am_loop (CallRaises # rest) = []"
| "am_loop (Returns v # rest) =
     (let s = py_strip (safe v) in if is_http_url s then s else am_loop rest)"

definition try_appmodule_url :: "node \<Rightarrow> string" where
  "try_appmodule_url obj =
     (case appModule obj of None \<Rightarrow> [] | Some helpers \<Rightarrow> am_loop helpers)"

text \<open>The three getters in the order \<open>_document_url\<close> tries them on one object.\<close>

definition getters_url :: "node \<Rightarrow> string" where
  "getters_url obj =
     (if try_tree_interceptor_url obj \<noteq> [] then try_tree_interceptor_url obj
      else if try_appmodule_url obj \<noteq> [] then try_appmodule_url obj
      else try_acc_value_url obj)"

definition document_url :: "host \<Rightarrow> nat \<Rightarrow> nat list \<Rightarrow> string" where
  "document_url h base_obj chain =
     (let from_doc =
            (case find_nearest_tag h chain ''#document'' of
               None \<Rightarrow> []
             | Some doc \<Rightarrow>
                 (let href = py_strip (dgets (ia2_attrs (node_of h doc)) ''href'')
                  in if href \<noteq> [] then href else try_acc_value_url (node_of h doc)))
      in if from_doc \<noteq> [] then from_doc
         else if getters_url (node_of h base_obj) \<noteq> [] then getters_url (node_of h base_obj)
         else (case getFocusObject h of
                 None \<Rightarrow> []
               | Some focus \<Rightarrow> getters_url (node_of h focus)))"

definition effective_href :: "host \<Rightarrow> nat \<Rightarrow> nat list \<Rightarrow> nat \<Rightarrow> string" where
  "effective_href h obj chain base_obj =
     (let t = tag_of (node_of h obj);
          href = py_strip (dgets (ia2_attrs (node_of h obj)) ''href'')
      in if t = ''#document'' then
           (if href \<noteq> [] then href else document_url h base_obj chain)
         else if href \<noteq> [] then href
         else if t = ''a'' then try_acc_value_url (node_of h obj)
         else if t \<in> set [''img'', ''svg''] then
           (case find_nearest_tag h chain ''a'' of
              None \<Rightarrow> []
            | Some link \<Rightarrow>
                (let href2 = py_strip (dgets (ia2_attrs (node_of h link)) ''href'')
                 in if href2 \<noteq> [] then href2 else try_acc_value_url (node_of h link)))
         else [])"

text \<open>
  A link whose MSAA value, tree interceptor and app module all report locations that
  are not absolute HTTP(S) URLs, and whose own \<open>href\<close> is a script URL.
\<close>

definition ftp_link :: node where
  "ftp_link =
     (element [(''tag'', ''a''), (''href'', ''javascript:void(0)'')] None)
       \<lparr>IAccessibleObject := Some (Got (Some ''ftp://example.com/'')),
        treeInterceptor := Some \<lparr>is_BrowseModeTreeInterceptor = True, has_passThrough = True,
          has_quickNav_nextHeading = True,
          ti_urls = [Got None, Got (Some ''about:blank''), Got None, Got None],
          NVDAObjectAtStart = None\<rparr>,
        appModule := Some [NotCallable, Returns (Some ''file:///C:/index.html''), NotCallable, NotCallable]\<rparr>"


section \<open>State queries\<close>

text \<open>\<open>_state_in\<close> and \<open>_has_state_name\<close>.\<close>

definition state_in :: "node \<Rightarrow> state_const \<Rightarrow> bool" where
  "state_in obj st = (st \<in> set (map fst (obj_states obj)))"

definition has_state_name :: "node \<Rightarrow> string \<Rightarrow> bool" where
  "has_state_name obj needle =
     list_ex (\<lambda>s. py_contains (py_lower needle) (py_lower (snd s))) (obj_states obj)"


section \<open>Form inference\<close>

definition interactive_tags :: "string list" where
  "interactive_tags = [''input'', ''textarea'', ''select'', ''button'']"

definition interactive_roles :: "string list" where
  "interactive_roles =
     [''button'', ''checkbox'', ''radio'', ''combobox'', ''listbox'', ''textbox'', ''searchbox'',
      ''slider'', ''spinbutton'', ''menuitem'', ''option'', ''switch'', ''tab'', ''treeitem'']"

definition form_checked :: "attrs \<Rightarrow> attrs" where
  "form_checked out =
     (if dhas out ''checked'' then
        (let v = py_lower (py_strip (dgets out ''checked''))
         in if v \<in> set [''1'', ''true'', ''yes'', ''on'', ''mixed''] then dset out ''checked'' ''true''
            else if v \<in> set [''0'', ''false'', ''no'', ''off''] then dset out ''checked'' ''false''
            else out)
      else out)"

definition form_tooltip :: "attrs \<Rightarrow> attrs" where
  "form_tooltip out =
     (if py_lower (py_strip (dgets out ''description-from'')) = ''tooltip''
         \<and> dhas out ''label'' \<and> \<not> dhas out ''title''
      then dset (dpop out ''label'') ''title'' (dgets out ''label'')
      else out)"

text \<open>The tag that form inference goes by: \<open>(out.get("tag") or _tag(obj)).lower()\<close>.\<close>

definition form_tag :: "node \<Rightarrow> attrs \<Rightarrow> string" where
  "form_tag obj out = py_lower (if dgets out ''tag'' \<noteq> [] then dgets out ''tag'' else tag_of obj)"

definition form_field :: "string \<Rightarrow> attrs \<Rightarrow> attrs" where
  "form_field t out0 =
     (let out = (if t \<in> set [''#document'', ''body'', ''html''] then dpop out0 ''fsFormField''
                 else out0)
      in if \<not> dhas out ''fsFormField''
            \<and> (t \<in> set interactive_tags
                \<or> py_lower (dgets out ''role'') \<in> set interactive_roles
                \<or> py_lower (dgets out ''xml-roles'') \<in> set interactive_roles)
         then dset out ''fsFormField'' ''true''
         else out)"

definition form_type :: "string \<Rightarrow> attrs \<Rightarrow> attrs" where
  "form_type t out =
     (if t \<in> set [''input'', ''textarea''] \<and> \<not> dhas out ''type''
         \<and> dgets out ''text-input-type'' \<noteq> []
      then dset out ''type'' (dgets out ''text-input-type'') else out)"

definition form_name :: "string \<Rightarrow> attrs \<Rightarrow> attrs" where
  "form_name t out =
     (if t \<in> set [''input'', ''textarea'', ''select''] \<and> \<not> dhas out ''name''
         \<and> py_strip (dgets out ''html-input-name'') \<noteq> []
      then dset out ''name'' (py_strip (dgets out ''html-input-name'')) else out)"

definition form_type_name :: "string \<Rightarrow> attrs \<Rightarrow> attrs" where
  "form_type_name t out = form_name t (form_type t out)"

definition form_multiline :: "string \<Rightarrow> attrs \<Rightarrow> attrs" where
  "form_multiline t out =
     (if \<not> dhas out ''multiline'' then
        (if t = ''textarea'' then dset out ''multiline'' ''true''
         else if t = ''input'' then dset out ''multiline'' ''false''
         else out)
      else out)"

definition form_required :: "node \<Rightarrow> attrs \<Rightarrow> attrs" where
  "form_required obj out =
     (if \<not> dhas out ''required'' \<and> (state_in obj REQUIRED \<or> has_state_name obj ''required'')
      then dset out ''required'' ''true'' else out)"

definition form_label :: "node \<Rightarrow> attrs \<Rightarrow> attrs" where
  "form_label obj out =
     (if \<not> dhas out ''label'' then
        (let nm = py_strip (safe (obj_name obj))
         in if nm \<noteq> [] \<and> py_lower (dgets out ''name-from'') = ''attribute''
            then dset out ''label'' nm
            else
              (let desc = py_strip (safe (obj_description obj))
               in if desc \<noteq> [] then
                    (let df = py_lower (dgets out ''description-from'')
                     in if df = ''aria-describedby'' then dset out ''description'' desc
                        else if df = ''tooltip'' then dset out ''title'' desc
                        else dset out ''label'' desc)
                  else out))
      else out)"

text \<open>\<open>_infer_form_attrs\<close>.\<close>

definition infer_form_attrs :: "node \<Rightarrow> attrs \<Rightarrow> attrs" where
  "infer_form_attrs obj attrs =
     (let out = form_tooltip (form_checked attrs);
          t = form_tag obj out
      in form_label obj (form_required obj (form_multiline t (form_type_name t (form_field t out)))))"


section \<open>Combobox expansion\<close>

text \<open>
  The children of an object as \<open>_iter_children\<close> collects them: the first child and up
  to 49 of its next siblings.
\<close>

fun sibling_walk :: "host \<Rightarrow> nat \<Rightarrow> nat option \<Rightarrow> nat list" where
  "sibling_walk h 0 child = []"
| "sibling_walk h (Suc n) None = []"
| "sibling_walk h (Suc n) (Some c) = c # sibling_walk h n (nextSibling (node_of h c))"

text \<open>
  \<open>_iter_children\<close>: the objects yielded by the breadth-first walk. The first argument
  counts the objects that may still be yielded (\<open>max_nodes - yielded\<close>); an object seen
  before is skipped.
\<close>

fun iter_children_loop :: "host \<Rightarrow> nat \<Rightarrow> nat list \<Rightarrow> nat list \<Rightarrow> nat list" where
  "iter_children_loop h left [] seen = []"
| "iter_children_loop h 0 (cur # queue) seen = []"
| "iter_children_loop h (Suc n) (cur # queue) seen =
     (if cur \<in> set seen then iter_children_loop h (Suc n) queue seen
      else cur # iter_children_loop h n
                   (queue @ sibling_walk h 50 (firstChild (node_of h cur))) (cur # seen))"

definition iter_children :: "host \<Rightarrow> nat \<Rightarrow> nat \<Rightarrow> nat list" where
  "iter_children h root max_nodes = iter_children_loop h max_nodes [root] []"

definition is_listbox :: "node \<Rightarrow> bool" where
  "is_listbox obj =
     (py_lower (dgets (ia2_attrs obj) ''xml-roles'') = ''listbox''
      \<or> py_lower (dgets (ia2_attrs obj) ''role'') = ''listbox'')"

definition class_lower :: "node \<Rightarrow> string" where
  "class_lower obj = py_lower (dgets (ia2_attrs obj) ''class'')"

text \<open>\<open>_infer_expanded_for_combobox\<close>.\<close>

definition infer_expanded_for_combobox :: "host \<Rightarrow> nat \<Rightarrow> nat list \<Rightarrow> attrs \<Rightarrow> attrs" where
  "infer_expanded_for_combobox h obj chain out =
     (let is_combo = (py_contains ''combobox'' (py_lower (dgets out ''xml-roles''))
                      \<or> py_lower (dgets out ''role'') = ''combobox''
                      \<or> py_lower (dgets out ''haspopup'') = ''listbox'')
      in if \<not> is_combo then out
         else if dhas out ''expanded'' then out
         else if list_ex (\<lambda>c. py_contains ''a8sbwf'' (class_lower (node_of h c))
                               \<and> py_contains ''emcav'' (class_lower (node_of h c))) chain
           then dset out ''expanded'' ''true''
         else
           (let start =
                  (case find (\<lambda>c. tag_of (node_of h c) = ''div''
                                  \<and> py_contains ''a8sbwf'' (class_lower (node_of h c))) chain of
                     Some s \<Rightarrow> s
                   | None \<Rightarrow>
                       (case find (\<lambda>c. tag_of (node_of h c) = ''div'') chain of
                          Some s \<Rightarrow> s
                        | None \<Rightarrow> obj));
                found_listbox = list_ex (\<lambda>n. is_listbox (node_of h n)) (iter_children h start 260)
            in dset out ''expanded'' (if found_listbox then ''true'' else ''false'')))"


section \<open>The inference engine\<close>

datatype py_error = AttributeError

text \<open>
  \<open>ia2n\<close>, the raw \<open>IA2Attributes\<close> that the inference engine consults next to the
  extracted mapping: \<open>getattr(obj, "IA2Attributes", None) or {}\<close>. Its \<open>get\<close> is what is
  called on it, so a non-empty string raises \<open>AttributeError\<close>, outside any \<open>try\<close>.
  A lookup yields the empty string for a missing key.
\<close>

definition ia2n_get :: "node \<Rightarrow> py_error + (string \<Rightarrow> string)" where
  "ia2n_get obj =
     (case IA2Attributes obj of
        IA2_Absent \<Rightarrow> Inr (\<lambda>k. [])
      | IA2_Dict items \<Rightarrow> Inr (dgets items)
      | IA2_Str s \<Rightarrow> (if s = [] then Inr (\<lambda>k. []) else Inl AttributeError))"

definition step_tag :: "node \<Rightarrow> attrs \<Rightarrow> attrs" where
  "step_tag obj out =
     (if tag_of obj \<noteq> [] \<and> \<not> dhas out ''tag'' then dset out ''tag'' (tag_of obj) else out)"

definition step_accessible_name :: "node \<Rightarrow> attrs \<Rightarrow> attrs" where
  "step_accessible_name obj out =
     (if \<not> dhas out ''accessible-name''
      then dset out ''accessible-name'' (py_strip (safe (obj_name obj))) else out)"

text \<open>\<open>a or b\<close> on two lookups.\<close>

definition py_or :: "string \<Rightarrow> string \<Rightarrow> string" where
  "py_or a b = (if a \<noteq> [] then a else b)"

definition computed_from :: "(string \<Rightarrow> string) \<Rightarrow> attrs \<Rightarrow> string" where
  "computed_from ia2n out =
     (let cf = py_strip (py_or (ia2n ''name-from'') (dgets out ''name-from''))
      in if cf = ''related-element'' then
           (if py_or (ia2n ''labelledby'') (py_or (dgets out ''labelledby'')
                 (py_or (ia2n ''aria-labelledby'') (dgets out ''aria-labelledby''))) \<noteq> []
            then ''aria-labelledby'' else cf)
         else if cf = ''attribute'' then
           (if py_or (ia2n ''aria-label'') (py_or (dgets out ''aria-label'')
                 (py_or (ia2n ''aria_label'') (dgets out ''aria_label''))) \<noteq> []
            then ''aria-label'' else ''attribute'')
         else if cf \<in> set [''contents'', ''content''] then ''content''
         else if cf \<in> set [''label'', ''label-for'', ''labelfor''] then ''label''
         else cf)"

definition step_name_from :: "string \<Rightarrow> attrs \<Rightarrow> attrs" where
  "step_name_from computedFrom out =
     (if computedFrom \<noteq> []
         \<and> (dgets out ''accessible-name-from'' = []
             \<or> (dgets out ''accessible-name-from'' = ''attribute''
                 \<and> startswith computedFrom ''aria-''))
      then dset out ''accessible-name-from'' computedFrom else out)"

definition step_explicit_name :: "string \<Rightarrow> attrs \<Rightarrow> attrs" where
  "step_explicit_name computedFrom out =
     (if py_lower (py_strip (dgets out ''explicit-name'')) \<in> set [''true'', ''1'', ''yes'', ''on'']
         \<and> (\<not> dhas out ''explicit-name-from'' \<or> py_strip (dgets out ''explicit-name-from'') = [])
      then dset out ''explicit-name-from'' computedFrom else out)"

definition step_expanded :: "node \<Rightarrow> attrs \<Rightarrow> attrs" where
  "step_expanded obj out =
     (if state_in obj COLLAPSED \<or> has_state_name obj ''collapsed'' then dset out ''expanded'' ''false''
      else if state_in obj EXPANDED \<or> has_state_name obj ''expanded'' then dset out ''expanded'' ''true''
      else out)"

definition step_selected :: "node \<Rightarrow> attrs \<Rightarrow> attrs" where
  "step_selected obj out =
     (if \<not> dhas out ''selected'' then
        (if state_in obj SELECTED \<or> has_state_name obj ''selected'' then dset out ''selected'' ''true''
         else if py_lower (dgets out ''role'') \<in> set [''tab'', ''option'', ''treeitem'']
                 \<or> py_lower (dgets out ''xml-roles'') \<in> set [''tab'', ''option'', ''treeitem'']
           then dset out ''selected'' ''false''
         else out)
      else out)"

text \<open>
  The checked state that the engine settles on for a checkable object. For a switch
  the state names \<open>on\<close> and \<open>off\<close> are looked at first, then the \<open>ON\<close> state.
\<close>

definition st_switch :: "node \<Rightarrow> bool" where
  "st_switch obj =
     (let s = (if has_state_name obj ''on'' then True
               else if has_state_name obj ''off'' then False
               else False)
      in if \<not> s then (if state_in obj ON then True else s) else s)"

definition st_checked :: "node \<Rightarrow> attrs \<Rightarrow> bool" where
  "st_checked obj out =
     (let is_switch = (py_lower (dgets out ''role'') = ''switch''
                       \<or> py_lower (dgets out ''xml-roles'') = ''switch'');
          s1 = (if is_switch then st_switch obj else False);
          s2 = (if \<not> s1 then state_in obj CHECKED \<or> has_state_name obj ''checked'' else s1)
      in if \<not> s2 \<and> is_switch then state_in obj PRESSED \<or> has_state_name obj ''pressed''
         else s2)"

definition step_checked :: "node \<Rightarrow> attrs \<Rightarrow> attrs" where
  "step_checked obj out =
     (if dhas out ''checkable'' \<and> \<not> dhas out ''checked''
      then dset out ''checked'' (if st_checked obj out then ''true'' else ''false'')
      else out)"

text \<open>
  The hint read from \<open>aria-pressed\<close>: \<open>None\<close>, \<open>False\<close> or \<open>True\<close>.
\<close>

definition pressed_from_aria :: "attrs \<Rightarrow> bool option" where
  "pressed_from_aria out =
     (let ap = py_lower (py_strip (dgets out ''aria-pressed''))
      in if ap \<in> set [''0'', ''false'', ''no''] then Some False
         else if ap \<in> set [''1'', ''true'', ''yes''] then Some True
         else None)"

definition bool_text :: "bool \<Rightarrow> string" where
  "bool_text b = (if b then ''true'' else ''false'')"

definition is_toggle :: "node \<Rightarrow> attrs \<Rightarrow> bool" where
  "is_toggle obj out =
     (py_lower (dgets out ''role'') = ''togglebutton''
      \<or> py_lower (dgets out ''xml-roles'') = ''togglebutton''
      \<or> obj_role obj = TOGGLEBUTTON)"

text \<open>The hint is removed from the mapping once it was read.\<close>

definition pressed_pop :: "attrs \<Rightarrow> attrs" where
  "pressed_pop out =
     (if py_lower (py_strip (dgets out ''aria-pressed'')) \<noteq> []
      then dpop out ''aria-pressed'' else out)"

text \<open>A toggle with one of the toggle tags gets a pressed value in any case.\<close>

definition pressed_toggle :: "node \<Rightarrow> bool option \<Rightarrow> attrs \<Rightarrow> attrs" where
  "pressed_toggle obj hint out =
     (if \<not> dhas out ''pressed'' \<and> is_toggle obj out
         \<and> (py_lower (dgets out ''tag'') \<in> set [''button'', ''a'', ''div'', ''span'']
             \<or> py_lower (dgets out ''tag'') = [])
      then
        (if state_in obj PRESSED \<or> state_in obj CHECKED
            \<or> has_state_name obj ''pressed'' \<or> has_state_name obj ''checked''
         then dset out ''pressed'' ''true''
         else (case hint of
                 Some b \<Rightarrow> dset out ''pressed'' (bool_text b)
               | None \<Rightarrow> dset out ''pressed'' ''false''))
      else out)"

text \<open>A selected tab counts as pressed.\<close>

definition pressed_tab :: "attrs \<Rightarrow> attrs" where
  "pressed_tab out =
     (if \<not> dhas out ''pressed''
         \<and> (py_lower (dgets out ''role'') = ''tab'' \<or> py_lower (dgets out ''xml-roles'') = ''tab'')
         \<and> dget out ''selected'' = Some ''true''
      then dset out ''pressed'' ''true'' else out)"

text \<open>Without a pressed value so far, the hint is kept.\<close>

definition pressed_hint :: "bool option \<Rightarrow> attrs \<Rightarrow> attrs" where
  "pressed_hint hint out =
     (if \<not> dhas out ''pressed'' then
        (case hint of Some b \<Rightarrow> dset out ''pressed'' (bool_text b) | None \<Rightarrow> out)
      else out)"

definition pressed_norm :: "attrs \<Rightarrow> attrs" where
  "pressed_norm out =
     (if dhas out ''pressed'' then
        (let pv = py_lower (py_strip (dgets out ''pressed''))
         in if pv \<in> set [''0'', ''false'', ''no''] then dset out ''pressed'' ''false''
            else if pv \<in> set [''1'', ''true'', ''yes''] then dset out ''pressed'' ''true''
            else out)
      else out)"

definition step_pressed :: "node \<Rightarrow> attrs \<Rightarrow> attrs" where
  "step_pressed obj out =
     (let hint = pressed_from_aria out
      in pressed_norm (pressed_hint hint (pressed_tab (pressed_toggle obj hint (pressed_pop out)))))"

text \<open>
  A span of a table cell: the first of the two properties that is true in Python's
  sense, else \<open>1\<close>; also \<open>1\<close> when a read raises.
\<close>

definition span_text :: "string option read \<Rightarrow> string option read \<Rightarrow> string" where
  "span_text a b =
     (case a of
        Raises \<Rightarrow> ''1''
      | Got (Some s) \<Rightarrow> s
      | Got None \<Rightarrow> (case b of Raises \<Rightarrow> ''1'' | Got (Some s) \<Rightarrow> s | Got None \<Rightarrow> ''1''))"

definition step_colspan :: "node \<Rightarrow> attrs \<Rightarrow> attrs" where
  "step_colspan obj out =
     (if tag_of obj \<in> set [''td'', ''th''] \<and> \<not> dhas out ''colspan''
      then dset out ''colspan'' (span_text (colSpan obj) (colspan obj)) else out)"

definition step_rowspan :: "node \<Rightarrow> attrs \<Rightarrow> attrs" where
  "step_rowspan obj out =
     (if tag_of obj \<in> set [''td'', ''th''] \<and> \<not> dhas out ''rowspan''
      then dset out ''rowspan'' (span_text (rowSpan obj) (rowspan obj)) else out)"

definition step_layout_guess :: "node \<Rightarrow> attrs \<Rightarrow> attrs" where
  "step_layout_guess obj out =
     (if tag_of obj = ''table'' \<and> \<not> dhas out ''layout-guess''
      then dset out ''layout-guess'' ''false'' else out)"

definition step_table :: "node \<Rightarrow> attrs \<Rightarrow> attrs" where
  "step_table obj out = step_layout_guess obj (step_rowspan obj (step_colspan obj out))"

definition step_tabindex :: "node \<Rightarrow> attrs \<Rightarrow> attrs" where
  "step_tabindex obj out =
     (if \<not> dhas out ''tabindex''
         \<and> form_tag obj out \<notin> set [''#document'', ''body'', ''html'']
         \<and> (py_lower (dgets out ''role'') = ''tab'' \<or> py_lower (dgets out ''xml-roles'') = ''tab'')
         \<and> (state_in obj FOCUSABLE \<or> has_state_name obj ''focusable''
             \<or> state_in obj FOCUSED \<or> has_state_name obj ''focused'')
      then dset out ''tabindex'' ''0'' else out)"

text \<open>\<open>_is_control_tag\<close>.\<close>

definition is_control_tag :: "string \<Rightarrow> bool" where
  "is_control_tag tagLower =
     (tagLower \<noteq> []
      \<and> tagLower \<in> set [''input'', ''textarea'', ''select'', ''button'', ''option'', ''meter'',
                          ''progress''])"

definition step_strip_noise :: "attrs \<Rightarrow> attrs" where
  "step_strip_noise out0 =
     (let out1 = (if dhas out0 ''MSAA Role''
                     \<and> \<not> is_control_tag (py_lower (py_strip (dgets out0 ''tag'')))
                  then dpop out0 ''MSAA Role'' else out0)
      in if py_lower (py_strip (dgets out1 ''tag'')) = ''#document''
         then dpop out1 ''readonly'' else out1)"

definition step_describedby_text :: "attrs \<Rightarrow> attrs" where
  "step_describedby_text out =
     (if py_lower (py_strip (dgets out ''description-from'')) = ''aria-describedby''
         \<and> py_strip (dgets out ''description'') \<noteq> []
         \<and> \<not> dhas out ''describedby-text''
      then dset out ''describedby-text'' (py_strip (dgets out ''description'')) else out)"

text \<open>
  \<open>_augment_attrs_for_readability\<close>, in three parts: the tag, the accessible name and
  the provenance of names; the states (expanded, selected, checked, pressed), table
  cells and tabindex; form inference, combobox expansion and the removal of noise. The
  debug block at its end does nothing (\<open>DEBUG_MODE\<close> is \<open>False\<close>); \<open>base_obj\<close> is not
  used.
\<close>

definition augment_names :: "node \<Rightarrow> (string \<Rightarrow> string) \<Rightarrow> attrs \<Rightarrow> attrs" where
  "augment_names n ia2n attrs =
     (let out = step_accessible_name n (step_tag n attrs);
          computedFrom = computed_from ia2n out
      in step_explicit_name computedFrom (step_name_from computedFrom out))"

definition augment_states :: "node \<Rightarrow> attrs \<Rightarrow> attrs" where
  "augment_states n out =
     step_tabindex n (step_table n (step_pressed n
       (step_checked n (step_selected n (step_expanded n out)))))"

definition augment_finish :: "host \<Rightarrow> nat \<Rightarrow> nat list \<Rightarrow> attrs \<Rightarrow> attrs" where
  "augment_finish h obj chain out =
     step_describedby_text (step_strip_noise
       (infer_expanded_for_combobox h obj chain (infer_form_attrs (node_of h obj) out)))"

definition augment_attrs_for_readability ::
    "host \<Rightarrow> nat \<Rightarrow> nat list \<Rightarrow> attrs \<Rightarrow> nat \<Rightarrow> py_error + attrs" where
  "augment_attrs_for_readability h obj chain attrs base_obj =
     (case ia2n_get (node_of h obj) of
        Inl e \<Rightarrow> Inl e
      | Inr ia2n \<Rightarrow>
          Inr (augment_finish h obj chain
                 (augment_states (node_of h obj) (augment_names (node_of h obj) ia2n attrs))))"

text \<open>
  The raw attribute source is a structured mapping, or there is none: the sources on
  which the inference engine does not raise.
\<close>

definition structured_source :: "node \<Rightarrow> bool" where
  "structured_source n = (case IA2Attributes n of IA2_Str s \<Rightarrow> s = [] | _ \<Rightarrow> True)"





section \<open>Report formatting\<close>

definition preferred :: "string list" where
  "preferred =
     [''tag'', ''id'', ''class'',
      ''role'', ''xml-roles'',
      ''orientation'',
      ''MSAA Role'',
      ''IA2 Role'',
      ''href'', ''src'',
      ''type'', ''text-input-type'',
      ''name'', ''html-input-name'',
      ''accessible-name'', ''accessible-name-from'',
      ''formcontrolname'',
      ''value'', ''valuetext'',
      ''required'', ''multiline'',
      ''contenteditable'', ''tabindex'',
      ''maxlength'', ''autocomplete'',
      ''haspopup'', ''expanded'',
      ''selected'',
      ''checkable'', ''checked'',
      ''pressed'',
      ''label'', ''title'',
      ''describedby'', ''description'',
      ''description-from'', ''labelledby'',
      ''name-from'', ''explicit-name'', ''explicit-name-from'',
      ''level'', ''posinset'', ''setsize'',
      ''colspan'', ''rowspan'', ''table-cell-index'',
      ''readonly'', ''fsFormField'',
      ''display'', ''layout-guess'', ''text-align'', ''text-model'']"

text \<open>
  The two loops of \<open>_ordered_params\<close>: a key is appended unless it was seen; the seen
  set and the list of keys hold the same keys throughout.
\<close>

fun preferred_loop :: "attrs \<Rightarrow> string list \<Rightarrow> string list \<Rightarrow> string list" where
  "preferred_loop a [] keys = keys"
| "preferred_loop a (k # ks) keys =
     preferred_loop a ks (if dhas a k \<and> k \<notin> set keys then keys @ [k] else keys)"

fun sorted_loop :: "string list \<Rightarrow> string list \<Rightarrow> string list" where
  "sorted_loop [] keys = keys"
| "sorted_loop (k # ks) keys = sorted_loop ks (if k \<notin> set keys then keys @ [k] else keys)"

definition ordered_params :: "string \<Rightarrow> attrs \<Rightarrow> string list" where
  "ordered_params tag_name a =
     sorted_loop (sort_key py_lower (dkeys a)) (preferred_loop a preferred [])"

definition block_pairs :: "string \<Rightarrow> attrs \<Rightarrow> (string \<times> string) list" where
  "block_pairs tag_name a =
     filter (\<lambda>(k, v). v \<noteq> [])
       (map (\<lambda>k. (k, py_strip (dgets a k))) (ordered_params tag_name a))"

definition block_header :: "string \<Rightarrow> nat \<Rightarrow> string" where
  "block_header tag_name n = ''Tag '' @ py_upper tag_name @ '' has '' @ str_nat n @ '' parameters:''"

definition block_lines :: "string \<Rightarrow> attrs \<Rightarrow> string list" where
  "block_lines tag_name a =
     [[]] @ [block_header tag_name (length (block_pairs tag_name a))]
     @ map (\<lambda>(k, v). k @ ''='' @ v) (block_pairs tag_name a) @ [[]]"

definition format_tag_block :: "string \<Rightarrow> attrs \<Rightarrow> string" where
  "format_tag_block tag_name a = py_join [CHR 0x0A] (block_lines tag_name a)"


section \<open>Canonical element selection\<close>

text \<open>
  \<open>_prefer_interactive_container\<close>: up to seven steps along the parents, from the
  object itself. A parent read that raises leaves the enclosing \<open>try\<close>, so the object
  itself is returned.
\<close>

fun container_loop :: "host \<Rightarrow> nat \<Rightarrow> nat option \<Rightarrow> nat \<Rightarrow> nat" where
  "container_loop h 0 cur obj = obj"
| "container_loop h (Suc n) None obj = obj"
| "container_loop h (Suc n) (Some c) obj =
     (let a = ia2_attrs (node_of h c);
          t = py_lower (py_strip (dgets a ''tag''));
          roleLower = py_lower (py_strip (dgets a ''role''));
          xmlRoleLower = py_lower (py_strip (dgets a ''xml-roles''));
          haspopup = py_lower (py_strip (dgets a ''haspopup''));
          tabindex = py_strip (dgets a ''tabindex'');
          fsff = py_lower (py_strip (dgets a ''fsFormField''))
      in if t = ''button'' then c
         else if (roleLower = ''button'' \<or> xmlRoleLower = ''button'') \<and> tabindex = ''0'' then c
         else if haspopup \<in> set [''menu'', ''listbox'', ''dialog'', ''tree'', ''grid''] then c
         else if fsff = ''true'' \<and> (roleLower \<noteq> [] \<or> xmlRoleLower \<noteq> []) then c
         else if obj_role (node_of h c) = BUTTON then c
         else (case obj_parent (node_of h c) of
                 Raises \<Rightarrow> obj
               | Got p \<Rightarrow> container_loop h n p obj))"

definition prefer_interactive_container :: "host \<Rightarrow> nat \<Rightarrow> nat" where
  "prefer_interactive_container h obj = container_loop h 7 (Some obj) obj"

text \<open>\<open>_is_contenteditable_host\<close>.\<close>

definition is_contenteditable_host :: "node \<Rightarrow> bool" where
  "is_contenteditable_host obj =
     (let a = ia2_attrs obj
      in if py_lower (dgets a ''contenteditable'') \<in> set [''true'', ''1''] then True
         else if dhas a ''multiline'' \<or> dhas a ''tabindex'' \<or> dgets a ''id'' = ''prompt-textarea''
           then tag_of obj \<in> set [''div'', ''textarea'', ''section'']
         else False)"

text \<open>
  \<open>_promote_canonical\<close>, for an object that is there: the object to report and,
  when another object was chosen for it, the object itself.
\<close>

definition promote_canonical :: "host \<Rightarrow> nat \<Rightarrow> nat list \<Rightarrow> nat \<times> nat option" where
  "promote_canonical h obj chain =
     (if chain = [] then (prefer_interactive_container h obj, None)
      else
        (let cur_tag = tag_of (node_of h obj);
             link = (if cur_tag \<in> set [''img'', ''svg''] then find_nearest_tag h chain ''a''
                     else None)
         in case link of
              Some l \<Rightarrow> (l, Some obj)
            | None \<Rightarrow>
                (case (if cur_tag \<in> set [''p'', ''span'', ''br'']
                       then find (\<lambda>c. is_contenteditable_host (node_of h c)) chain
                       else None) of
                   Some c \<Rightarrow> (prefer_interactive_container h c, Some obj)
                 | None \<Rightarrow> (prefer_interactive_container h obj, None))))"


section \<open>The report\<close>

text \<open>\<open>_get_candidate_object\<close>.\<close>

definition get_candidate_object :: "host \<Rightarrow> nat option" where
  "get_candidate_object h =
     (let caret =
            (case getFocusObject h of
               None \<Rightarrow> None
             | Some focus \<Rightarrow>
                 (case treeInterceptor (node_of h focus) of
                    None \<Rightarrow> None
                  | Some ti \<Rightarrow>
                      if is_BrowseModeTreeInterceptor ti then NVDAObjectAtStart ti else None))
      in case caret of
           Some c \<Rightarrow> Some c
         | None \<Rightarrow>
             (case getNavigatorObject h of
                Some nav \<Rightarrow> Some nav
              | None \<Rightarrow> getFocusObject h))"

definition is_browse_mode_obj :: "node \<Rightarrow> bool" where
  "is_browse_mode_obj obj =
     (case treeInterceptor obj of
        None \<Rightarrow> False
      | Some ti \<Rightarrow>
          is_BrowseModeTreeInterceptor ti \<or> (has_passThrough ti \<and> has_quickNav_nextHeading ti))"

definition has_document :: "host \<Rightarrow> nat list \<Rightarrow> bool" where
  "has_document h chain = list_ex (\<lambda>c. tag_of (node_of h c) = ''#document'') chain"

text \<open>\<open>_is_web_context\<close>, for an object that is there.\<close>

definition is_web_context :: "host \<Rightarrow> nat \<Rightarrow> bool" where
  "is_web_context h base_obj =
     (let focus = (case getFocusObject h of
                     None \<Rightarrow> None
                   | Some f \<Rightarrow> if f \<noteq> base_obj then Some f else None);
          base_chain = dom_chain_with_tags h (Some base_obj) default_max_depth
      in if is_browse_mode_obj (node_of h base_obj) then True
         else if (case focus of None \<Rightarrow> False | Some f \<Rightarrow> is_browse_mode_obj (node_of h f))
           then True
         else if has_document h base_chain then True
         else if document_url h base_obj base_chain \<noteq> [] then True
         else (case focus of
                 None \<Rightarrow> False
               | Some f \<Rightarrow>
                   (let focus_chain = dom_chain_with_tags h (Some f) default_max_depth
                    in if has_document h focus_chain then True
                       else document_url h f focus_chain \<noteq> [])))"

text \<open>
  What \<open>_build_report\<close> returns: a message with the flag \<open>False\<close>, or a report with the
  flag \<open>True\<close>. The advanced report is built from the plain text of the report and
  from the subtree of the canonical object; it is carried as that plain text.
\<close>

datatype report = Message string | Report string | AdvancedOf string

definition only_document :: "host \<Rightarrow> nat list \<Rightarrow> bool" where
  "only_document h chain =
     (case chain of [d] \<Rightarrow> tag_of (node_of h d) = ''#document'' | _ \<Rightarrow> False)"

text \<open>
  Another candidate replaces the base object when its chain is longer; it is tried
  only while the chain of the base object is a document alone.
\<close>

definition try_alternative :: "host \<Rightarrow> nat option \<Rightarrow> nat \<times> nat list \<Rightarrow> nat \<times> nat list" where
  "try_alternative h alt bc =
     (if only_document h (snd bc) then
        (case alt of
           None \<Rightarrow> bc
         | Some a \<Rightarrow>
             if a \<noteq> fst bc
                \<and> length (dom_chain_with_tags h (Some a) default_max_depth) > length (snd bc)
             then (a, dom_chain_with_tags h (Some a) default_max_depth)
             else bc)
      else bc)"

definition choose_base :: "host \<Rightarrow> nat \<Rightarrow> nat \<times> nat list" where
  "choose_base h base =
     try_alternative h (getFocusObject h)
       (try_alternative h (getNavigatorObject h)
          (base, dom_chain_with_tags h (Some base) default_max_depth))"

text \<open>The block of one object of the report, trimmed on the right.\<close>

definition block_tag :: "node \<Rightarrow> attrs \<Rightarrow> string" where
  "block_tag obj a =
     (let t = (if dhas a ''tag'' then dgets a ''tag'' else tag_of obj)
      in if t = [] then ''unknown'' else t)"

definition tag_block :: "host \<Rightarrow> nat \<Rightarrow> nat \<Rightarrow> py_error + string" where
  "tag_block h obj base =
     (case augment_attrs_for_readability h obj
             (dom_chain_with_tags h (Some obj) default_max_depth)
             (ia2_attrs (node_of h obj)) base of
        Inl e \<Rightarrow> Inl e
      | Inr a \<Rightarrow> Inr (py_rstrip (format_tag_block (block_tag (node_of h obj) a) a)))"

fun tag_blocks :: "host \<Rightarrow> nat list \<Rightarrow> nat \<Rightarrow> py_error + string list" where
  "tag_blocks h [] base = Inr []"
| "tag_blocks h (obj # objs) base =
     (case tag_block h obj base of
        Inl e \<Rightarrow> Inl e
      | Inr b \<Rightarrow> (case tag_blocks h objs base of Inl e \<Rightarrow> Inl e | Inr bs \<Rightarrow> Inr (b # bs)))"

definition not_applicable :: string where
  "not_applicable = ''HTML Element Inspector works only when Browse Mode (virtual buffer) is available.''"

text \<open>
  \<open>_build_report\<close>. An error of the inference engine is not caught here, so it is the
  outcome of the call.
\<close>

definition build_report :: "host \<Rightarrow> bool \<Rightarrow> py_error + report" where
  "build_report h advanced =
     (case get_candidate_object h of
        None \<Rightarrow> Inr (Message (gettext h ''No element found.''))
      | Some candidate \<Rightarrow>
          if \<not> is_web_context h candidate then Inr (Message (gettext h not_applicable))
          else
            (let base = fst (choose_base h candidate);
                 base_chain = snd (choose_base h candidate);
                 canonical = fst (promote_canonical h base base_chain);
                 promoted_from = snd (promote_canonical h base base_chain);
                 canonical_chain = dom_chain_with_tags h (Some canonical) default_max_depth;
                 title = (if advanced then ''Advanced Element Information:''
                          else ''Element Information:'')
             in case tag_block h canonical base of
                  Inl e \<Rightarrow> Inl e
                | Inr c_block \<Rightarrow>
                    (case (case promoted_from of
                             None \<Rightarrow> Inr []
                           | Some p \<Rightarrow>
                               if p \<noteq> canonical then
                                 (case tag_block h p base of
                                    Inl e \<Rightarrow> Inl e
                                  | Inr p_block \<Rightarrow> Inr [''Nested element:'', p_block])
                               else Inr []) of
                       Inl e \<Rightarrow> Inl e
                     | Inr nested \<Rightarrow>
                         (case tag_blocks h (tl canonical_chain) base of
                            Inl e \<Rightarrow> Inl e
                          | Inr ancestors \<Rightarrow>
                              (let text = py_strip (py_join [CHR 0x0A]
                                                      ([title, c_block] @ nested @ ancestors))
                                          @ [CHR 0x0A]
                               in Inr (if advanced then AdvancedOf text else Report text))))))"


section \<open>Properties of dictionaries\<close>

lemma dget_dset: "dget (dset d k v) k' = (if k' = k then Some v else dget d k')"
proof (cases "k \<in> set (map fst d)")
  case True
  have "map_of (map (\<lambda>(a, b). if a = k then (a, v) else (a, b)) d) k'
        = (if k' = k then (case map_of d k of None \<Rightarrow> None | Some _ \<Rightarrow> Some v) else map_of d k')"
    by (induction d) auto
  moreover from True have "map_of d k \<noteq> None"
    by (simp add: map_of_eq_None_iff)
  ultimately show ?thesis
    using True by (auto simp: dget_def dset_def)
next
  case False
  then have "map_of d k = None"
    by (simp add: map_of_eq_None_iff)
  with False show ?thesis
    by (simp add: dget_def dset_def map_add_def split: option.splits)
qed

lemma dget_dpop: "dget (dpop d k) k' = (if k' = k then None else dget d k')"
  unfolding dget_def dpop_def by (induction d) auto

lemma dhas_dget: "dhas d k = (dget d k \<noteq> None)"
  by (simp add: dhas_def dget_def map_of_eq_None_iff)

lemma dgets_dget: "dgets d k = (case dget d k of None \<Rightarrow> [] | Some v \<Rightarrow> v)"
  by (simp add: dgets_def dget_def)

lemmas dict_simps = dget_dset dget_dpop dhas_dget dgets_dget



section \<open>Properties of text and of extraction\<close>

lemma rstrip_hd: "py_rstrip t \<noteq> [] \<Longrightarrow> hd (py_rstrip t) = hd t"
  unfolding py_rstrip_def
  by (metis Nil_is_rev_conv dropWhile_eq_Nil_conv dropWhile_last hd_rev last_rev)

lemma lstrip_nospace: "py_lstrip s \<noteq> [] \<Longrightarrow> \<not> is_space (hd (py_lstrip s))"
  unfolding py_lstrip_def by (simp add: hd_dropWhile)

lemma lstrip_id: "s = [] \<or> \<not> is_space (hd s) \<Longrightarrow> py_lstrip s = s"
  unfolding py_lstrip_def by (cases s) auto

lemma rstrip_idem: "py_rstrip (py_rstrip s) = py_rstrip s"
  unfolding py_rstrip_def by simp

lemma py_strip_idem [simp]: "py_strip (py_strip s) = py_strip s"
proof -
  let ?t = "py_lstrip s"
  have "py_rstrip ?t = [] \<or> \<not> is_space (hd (py_rstrip ?t))"
  proof (cases "py_rstrip ?t = []")
    case True
    then show ?thesis by simp
  next
    case False
    then have "?t \<noteq> []" by (auto simp: py_rstrip_def)
    with False show ?thesis
      using rstrip_hd [of ?t] lstrip_nospace [of s] by simp
  qed
  then have "py_lstrip (py_rstrip ?t) = py_rstrip ?t"
    by (rule lstrip_id)
  then show ?thesis
    by (simp add: py_strip_def rstrip_idem)
qed

lemma py_strip_Nil [simp]: "py_strip [] = []"
  by (simp add: py_strip_def py_lstrip_def py_rstrip_def)

lemma stripped_Nil: "stripped_values []"
  by (simp add: stripped_values_def)

lemma stripped_dset: "stripped_values d \<Longrightarrow> py_strip v = v \<Longrightarrow> stripped_values (dset d k v)"
  by (auto simp: stripped_values_def dset_def split: if_splits)

lemma stripped_dpop: "stripped_values d \<Longrightarrow> stripped_values (dpop d k)"
  by (auto simp: stripped_values_def dpop_def)

lemma stripped_dgets: "stripped_values d \<Longrightarrow> py_strip (dgets d k) = dgets d k"
  by (auto simp: stripped_values_def dgets_def split: option.splits dest!: map_of_SomeD)

lemma stripped_dict_loop: "stripped_values out \<Longrightarrow> stripped_values (ia2_dict_loop items ksl out)"
  by (induction items ksl out rule: ia2_dict_loop.induct)
     (auto simp: Let_def stripped_dset split: option.splits)

lemma stripped_str_loop: "stripped_values out \<Longrightarrow> stripped_values (ia2_str_loop ps out)"
  by (induction ps out rule: ia2_str_loop.induct) (auto simp: Let_def stripped_dset)

lemma stripped_raw: "stripped_values (ia2_raw src)"
  by (cases src) (simp_all add: ia2_raw_def stripped_dict_loop stripped_str_loop stripped_Nil)

lemma stripped_formcontrolname:
  "stripped_values out \<Longrightarrow> stripped_values (formcontrolname_loop ks out)"
  by (induction ks out rule: formcontrolname_loop.induct)
     (auto simp: stripped_dset stripped_dpop stripped_dgets)

lemma stripped_link: "stripped_values out \<Longrightarrow> stripped_values (link_refinement out)"
  by (auto simp: link_refinement_def Let_def stripped_dset stripped_dpop)

lemma stripped_enrich_aria: "stripped_values out \<Longrightarrow> stripped_values (enrich_aria out)"
  by (simp add: enrich_aria_def Let_def stripped_dset)

lemma stripped_enrich_value:
  "stripped_values out \<Longrightarrow> enrich_value obj out = Some out' \<Longrightarrow> stripped_values out'"
  by (auto simp: enrich_value_def Let_def stripped_dset split: if_splits read.splits)

lemma stripped_enrich:
  assumes "stripped_values out"
  shows "stripped_values (ia2_enrich obj out)"
proof -
  let ?o = "formcontrolname_loop (dkeys (enrich_aria out)) (enrich_aria out)"
  have o: "stripped_values ?o"
    using assms by (intro stripped_formcontrolname stripped_enrich_aria)
  show ?thesis
  proof (cases "enrich_value obj ?o")
    case None
    with o show ?thesis
      by (simp add: ia2_enrich_def Let_def)
  next
    case (Some out')
    from stripped_enrich_value [OF o Some] have "stripped_values (link_refinement out')"
      by (rule stripped_link)
    with Some show ?thesis
      by (simp add: ia2_enrich_def Let_def)
  qed
qed

lemma stripped_ia2_attrs: "stripped_values (ia2_attrs obj)"
  by (simp add: ia2_attrs_def stripped_enrich stripped_raw)

lemma tag_of_nonempty: "dgets (ia2_attrs obj) ''tag'' \<noteq> [] \<Longrightarrow> tag_of obj \<noteq> []"
  by (simp add: tag_of_def stripped_dgets [OF stripped_ia2_attrs] py_lower_def)


section \<open>Properties of the ancestry walker\<close>

lemma chain_loop_acc: "chain_loop h n cur acc = acc @ chain_loop h n cur []"
proof (induction n arbitrary: cur acc)
  case 0
  show ?case by simp
next
  case (Suc n)
  show ?case
  proof (cases cur)
    case None
    then show ?thesis by simp
  next
    case (Some c)
    show ?thesis
      using Suc.IH [of _ "acc @ [c]"] Suc.IH [of _ "[c]"] Suc.IH [of _ acc]
      by (simp add: Some Let_def)
  qed
qed

lemma chain_loop_length: "length (chain_loop h n cur []) \<le> n"
proof (induction n arbitrary: cur)
  case 0
  show ?case by simp
next
  case (Suc n)
  show ?case
  proof (cases cur)
    case None
    then show ?thesis by simp
  next
    case (Some c)
    show ?thesis
      using Suc.IH chain_loop_acc [of h n _ "[c]"]
      by (auto simp: Some Let_def le_SucI)
  qed
qed

lemma chain_loop_tags:
  "c \<in> set (chain_loop h n cur []) \<Longrightarrow> dgets (ia2_attrs (node_of h c)) ''tag'' \<noteq> []"
proof (induction n arbitrary: cur)
  case 0
  then show ?case by simp
next
  case (Suc n)
  show ?case
  proof (cases cur)
    case None
    with Suc.prems show ?thesis by simp
  next
    case (Some d)
    show ?thesis
      using Suc.prems Suc.IH chain_loop_acc [of h n _ "[d]"]
      by (auto simp: Some Let_def split: if_splits)
  qed
qed

lemma chain_loop_document:
  "c \<in> set (butlast (chain_loop h n cur [])) \<Longrightarrow> tag_of (node_of h c) \<noteq> ''#document''"
proof (induction n arbitrary: cur)
  case 0
  then show ?case by simp
next
  case (Suc n)
  show ?case
  proof (cases cur)
    case None
    with Suc.prems show ?thesis by simp
  next
    case (Some d)
    show ?thesis
      using Suc.prems Suc.IH chain_loop_acc [of h n _ "[d]"]
      by (auto simp: Some Let_def tag_of_def butlast_append split: if_splits)
  qed
qed

lemma chain_loop_reaches_document:
  assumes "d \<in> set (visited h n cur)" "tag_of (node_of h d) = ''#document''"
  shows "chain_loop h n cur [] \<noteq> []
         \<and> tag_of (node_of h (last (chain_loop h n cur []))) = ''#document''"
  using assms
proof (induction n arbitrary: cur)
  case 0
  then show ?case by simp
next
  case (Suc n)
  show ?case
  proof (cases cur)
    case None
    with Suc.prems show ?thesis by simp
  next
    case (Some c)
    let ?up = "case obj_parent (node_of h c) of Raises \<Rightarrow> None | Got p \<Rightarrow> p"
    show ?thesis
    proof (cases "tag_of (node_of h c) = ''#document''")
      case True
      then have "dgets (ia2_attrs (node_of h c)) ''tag'' \<noteq> []"
        by (auto simp: tag_of_def py_lower_def)
      with True show ?thesis
        by (simp add: Some Let_def tag_of_def)
    next
      case False
      with Suc.prems Some have "d \<in> set (visited h n ?up)"
        by auto
      from Suc.IH [OF this Suc.prems(2)]
      have ih: "chain_loop h n ?up [] \<noteq> []"
        "tag_of (node_of h (last (chain_loop h n ?up []))) = ''#document''"
        by simp_all
      show ?thesis
        using False ih chain_loop_acc [of h n ?up "[c]"]
        by (simp add: Some Let_def tag_of_def)
    qed
  qed
qed

lemma chain_loop_visited: "set (chain_loop h n cur []) \<subseteq> set (visited h n cur)"
proof (induction n arbitrary: cur)
  case 0
  show ?case by simp
next
  case (Suc n)
  show ?case
  proof (cases cur)
    case None
    then show ?thesis by simp
  next
    case (Some c)
    show ?thesis
      using Suc.IH chain_loop_acc [of h n _ "[c]"]
      by (auto simp: Some Let_def)
  qed
qed

lemma sample_chain: "dom_chain_with_tags sample_host (Some 0) 40 = [0, 2, 3]"
  by code_simp

text \<open>
  Claim C3. Whatever the starting object and the depth budget, every object of the chain
  built by the ancestry walker has a non-empty extracted \<open>tag\<close> attribute (and a
  non-empty normalised tag); no object of the chain but the last is tagged
  \<open>#document\<close>, so the chain holds at most one document object and ends with it; when
  an object the walker looks at is tagged \<open>#document\<close>, the chain does end with a
  document object; and the chain is no longer than the depth budget, 40 by default.
\<close>

theorem dom_chain_invariants:
  "(\<forall>c \<in> set (dom_chain_with_tags h obj max_depth).
       dgets (ia2_attrs (node_of h c)) ''tag'' \<noteq> [] \<and> tag_of (node_of h c) \<noteq> [])
   \<and> (\<forall>c \<in> set (butlast (dom_chain_with_tags h obj max_depth)).
         tag_of (node_of h c) \<noteq> ''#document'')
   \<and> (\<forall>d \<in> set (visited h max_depth obj).
         tag_of (node_of h d) = ''#document'' \<longrightarrow>
           dom_chain_with_tags h obj max_depth \<noteq> []
           \<and> tag_of (node_of h (last (dom_chain_with_tags h obj max_depth))) = ''#document'')
   \<and> set (dom_chain_with_tags h obj max_depth) \<subseteq> set (visited h max_depth obj)
   \<and> length (dom_chain_with_tags h obj max_depth) \<le> max_depth
   \<and> length (dom_chain_with_tags h obj default_max_depth) \<le> 40"
proof -
  have tags: "dgets (ia2_attrs (node_of h c)) ''tag'' \<noteq> [] \<and> tag_of (node_of h c) \<noteq> []"
    if "c \<in> set (dom_chain_with_tags h obj max_depth)" for c
  proof -
    from that have "dgets (ia2_attrs (node_of h c)) ''tag'' \<noteq> []"
      unfolding dom_chain_with_tags_def by (rule chain_loop_tags)
    then show ?thesis by (simp add: tag_of_nonempty)
  qed
  have doc: "tag_of (node_of h c) \<noteq> ''#document''"
    if "c \<in> set (butlast (dom_chain_with_tags h obj max_depth))" for c
    using that unfolding dom_chain_with_tags_def by (rule chain_loop_document)
  have reached: "dom_chain_with_tags h obj max_depth \<noteq> []
           \<and> tag_of (node_of h (last (dom_chain_with_tags h obj max_depth))) = ''#document''"
    if "d \<in> set (visited h max_depth obj)" "tag_of (node_of h d) = ''#document''" for d
    using that unfolding dom_chain_with_tags_def by (rule chain_loop_reaches_document)
  have sub: "set (dom_chain_with_tags h obj max_depth) \<subseteq> set (visited h max_depth obj)"
    unfolding dom_chain_with_tags_def by (rule chain_loop_visited)
  have len: "length (dom_chain_with_tags h obj n) \<le> n" for n
    unfolding dom_chain_with_tags_def by (rule chain_loop_length)
  show ?thesis
    using tags doc reached sub len [of max_depth] len [of default_max_depth]
    by (simp add: default_max_depth_def)
qed

theorem dom_chain_invariants_witness:
  "dom_chain_with_tags sample_host (Some 0) 40 = [0, 2, 3]
   \<and> visited sample_host 40 (Some 0) = [0, 1, 2, 3, 4]
   \<and> dgets (ia2_attrs (node_of sample_host 0)) ''tag'' \<noteq> []
   \<and> tag_of (node_of sample_host 2) \<noteq> ''#document''
   \<and> tag_of (node_of sample_host 3) = ''#document''
   \<and> length (dom_chain_with_tags sample_host (Some 0) 40) \<le> 40"
proof -
  have walk: "visited sample_host 40 (Some 0) = [0, 1, 2, 3, 4]"
    by code_simp
  have "3 \<in> set (visited sample_host 40 (Some 0))"
    by (simp add: walk)
  moreover have "tag_of (node_of sample_host 3) = ''#document''"
    by code_simp
  ultimately show ?thesis
    using dom_chain_invariants [of sample_host "Some 0" 40]
    by (simp add: sample_chain walk)
qed

section \<open>Properties of the formatter\<close>






lemma set_preferred_loop:
  "set (preferred_loop a ks keys) = set keys \<union> {k \<in> set ks. dhas a k}"
  by (induction a ks keys rule: preferred_loop.induct) auto

lemma distinct_preferred_loop: "distinct keys \<Longrightarrow> distinct (preferred_loop a ks keys)"
  by (induction a ks keys rule: preferred_loop.induct) auto

lemma set_sorted_loop: "set (sorted_loop ks keys) = set keys \<union> set ks"
  by (induction ks keys rule: sorted_loop.induct) auto

lemma distinct_sorted_loop: "distinct keys \<Longrightarrow> distinct (sorted_loop ks keys)"
  by (induction ks keys rule: sorted_loop.induct) auto

lemma set_ordered_params: "set (ordered_params tag_name a) = set (dkeys a)"
  by (auto simp: ordered_params_def set_sorted_loop set_preferred_loop dhas_def dkeys_def)

lemma distinct_ordered_params: "distinct (ordered_params tag_name a)"
  by (simp add: ordered_params_def distinct_sorted_loop distinct_preferred_loop)




lemma length_block_pairs:
  "length (block_pairs tag_name a) = card {k \<in> set (dkeys a). py_strip (dgets a k) \<noteq> []}"
proof -
  have "length (block_pairs tag_name a)
        = length (filter (\<lambda>k. py_strip (dgets a k) \<noteq> []) (ordered_params tag_name a))"
    by (simp add: block_pairs_def filter_map o_def)
  also have "\<dots> = card ({k. py_strip (dgets a k) \<noteq> []} \<inter> set (ordered_params tag_name a))"
    by (rule distinct_length_filter) (rule distinct_ordered_params)
  also have "\<dots> = card {k \<in> set (dkeys a). py_strip (dgets a k) \<noteq> []}"
    by (rule arg_cong [where f = card]) (auto simp: set_ordered_params)
  finally show ?thesis .
qed


lemma block_pairs_values:
  "(k, v) \<in> set (block_pairs tag_name a) \<Longrightarrow>
     k \<in> set (dkeys a) \<and> v = py_strip (dgets a k) \<and> v \<noteq> []"
  using set_ordered_params [of tag_name a] by (auto simp: block_pairs_def)





text \<open>
  Claim C8. A rendered block is an empty line, the header
  \<open>Tag T has N parameters:\<close> with the tag in upper case, one \<open>key=value\<close> line per
  rendered pair and a closing empty line. \<open>N\<close> is the number of those lines, which is
  the number of keys of the mapping whose trimmed value is not empty; every line
  carries a key of the mapping with its trimmed, non-empty value, and a key whose
  trimmed value is empty has no line.
\<close>

theorem format_tag_block_count:
  "format_tag_block t a
   = py_join [CHR 0x0A]
       ([[]] @ [''Tag '' @ py_upper t @ '' has '' @ str_nat (length (block_pairs t a))
                @ '' parameters:'']
        @ map (\<lambda>(k, v). k @ ''='' @ v) (block_pairs t a) @ [[]])
   \<and> length (map (\<lambda>(k, v). k @ ''='' @ v) (block_pairs t a))
       = card {k \<in> set (dkeys a). py_strip (dgets a k) \<noteq> []}
   \<and> (\<forall>(k, v) \<in> set (block_pairs t a).
         k \<in> set (dkeys a) \<and> v = py_strip (dgets a k) \<and> v \<noteq> [])
   \<and> (\<forall>k. py_strip (dgets a k) = [] \<longrightarrow> k \<notin> fst ` set (block_pairs t a))"
proof -
  have "k \<notin> fst ` set (block_pairs t a)" if "py_strip (dgets a k) = []" for k
    using that block_pairs_values [of k _ t a] by force
  moreover have "\<forall>(k, v) \<in> set (block_pairs t a).
                   k \<in> set (dkeys a) \<and> v = py_strip (dgets a k) \<and> v \<noteq> []"
    using block_pairs_values [of _ _ t a] by blast
  ultimately show ?thesis
    by (simp add: format_tag_block_def block_lines_def block_header_def length_block_pairs)
qed

theorem format_tag_block_count_witness:
  "format_tag_block ''a'' [(''zz'', ''1''), (''href'', ''h''), (''tag'', ''a''), (''e'', '' '')]
   = py_join [CHR 0x0A] [[], ''Tag A has 3 parameters:'', ''tag=a'', ''href=h'', ''zz=1'', []]
   \<and> card {k \<in> set (dkeys [(''zz'', ''1''), (''href'', ''h''), (''tag'', ''a''), (''e'', '' '')]).
             py_strip (dgets [(''zz'', ''1''), (''href'', ''h''), (''tag'', ''a''), (''e'', '' '')] k) \<noteq> []}
       = 3
   \<and> ''e'' \<notin> fst ` set (block_pairs ''a'' [(''zz'', ''1''), (''href'', ''h''), (''tag'', ''a''), (''e'', '' '')])"
proof -
  let ?a = "[(''zz'', ''1''), (''href'', ''h''), (''tag'', ''a''), (''e'', '' '')]"
  have pairs: "block_pairs ''a'' ?a = [(''tag'', ''a''), (''href'', ''h''), (''zz'', ''1'')]"
    by code_simp
  have blank: "py_strip (dgets ?a ''e'') = []"
    by code_simp
  have block: "format_tag_block ''a'' ?a
               = py_join [CHR 0x0A] [[], ''Tag A has 3 parameters:'', ''tag=a'', ''href=h'', ''zz=1'', []]"
    by code_simp
  have "length (map (\<lambda>(k, v). k @ ''='' @ v) (block_pairs ''a'' ?a))
        = card {k \<in> set (dkeys ?a). py_strip (dgets ?a k) \<noteq> []}"
    using format_tag_block_count [of "''a''" ?a] by blast
  then have count: "card {k \<in> set (dkeys ?a). py_strip (dgets ?a k) \<noteq> []} = 3"
    by (simp add: pairs)
  have "''e'' \<notin> fst ` set (block_pairs ''a'' ?a)"
    using format_tag_block_count [of "''a''" ?a] blank by blast
  with block count show ?thesis
    by blast
qed


section \<open>Properties of alias normalisation\<close>

text \<open>
  Claim C4 says that both raw representations collapse the spellings of
  \<open>describedby\<close> and of \<open>checked\<close>, and that normalising twice changes nothing. The
  loop over a string of entries collapses \<open>describedby\<close> only: the entry
  \<open>aria-checked:true\<close> is extracted under the key \<open>aria-checked\<close>, where the same
  entry of a structured mapping is extracted under \<open>checked\<close>. In the loop over a
  structured mapping the lower-cased key is computed for a non-blank key only: a
  blank first key abandons the loop, so a later \<open>aria-describedby\<close> is not extracted
  at all.
\<close>

theorem ia2_attrs_alias_not_collapsed:
  "ia2_attrs (blank_node\<lparr>IA2Attributes := IA2_Str ''aria-checked:true''\<rparr>)
   = [(''aria-checked'', ''true'')]
   \<and> ia2_attrs (blank_node\<lparr>IA2Attributes := IA2_Dict [(''aria-checked'', ''true'')]\<rparr>)
     = [(''checked'', ''true'')]
   \<and> ia2_attrs (blank_node\<lparr>IA2Attributes :=
        IA2_Dict [('' '', ''x''), (''aria-describedby'', ''tip'')]\<rparr>) = []"
  by code_simp

text \<open>
  A blank key after other keys is stored under the alias of the key before it, so
  extracting from an extracted mapping can change it: the second pass below moves the
  value of the blank key to \<open>describedby\<close>.
\<close>

lemma ia2_attrs_second_pass_differs:
  "ia2_attrs (blank_node\<lparr>IA2Attributes :=
      IA2_Dict [(''x'', ''1''), (''describedby'', ''d''), (''x '', ''3''), ('''', ''2'')]\<rparr>)
   = [(''x'', ''3''), (''describedby'', ''d''), ('''', ''2'')]
   \<and> ia2_attrs (blank_node\<lparr>IA2Attributes :=
        IA2_Dict [(''x'', ''3''), (''describedby'', ''d''), ('''', ''2'')]\<rparr>)
     = [(''x'', ''3''), (''describedby'', ''2'')]"
  by code_simp

text \<open>
  The rest of this section is about what does hold. On a structured mapping without
  blank keys the loop applies the alias normalisation to each trimmed key in turn.
\<close>

lemma dict_loop_nonblank:
  "nonblank_keys items \<Longrightarrow>
   ia2_dict_loop items ksl out
   = foldl (\<lambda>acc (k, v). dset acc (alias_key (py_strip k)) (py_strip v)) out items"
  by (induction items ksl out rule: ia2_dict_loop.induct)
     (auto simp: nonblank_keys_def alias_key_def Let_def)

lemma map_fst_dset_present:
  "map fst (map (\<lambda>(a, b). if a = k then (a, v) else (a, b)) d) = map fst d"
  by (induction d) auto

lemma dkeys_dset_present: "k \<in> set (map fst d) \<Longrightarrow> dkeys (dset d k v) = dkeys d"
  by (simp only: dkeys_def dset_def if_True map_fst_dset_present)

lemma dkeys_dset_absent: "k \<notin> set (map fst d) \<Longrightarrow> dkeys (dset d k v) = dkeys d @ [k]"
  by (simp add: dkeys_def dset_def)

lemma dkeys_dset: "set (dkeys (dset d k v)) = insert k (set (dkeys d))"
proof (cases "k \<in> set (map fst d)")
  case True
  then show ?thesis
    by (simp only: dkeys_dset_present) (auto simp: dkeys_def)
next
  case False
  then show ?thesis
    by (simp add: dkeys_dset_absent)
qed

lemma distinct_dset: "distinct (dkeys d) \<Longrightarrow> distinct (dkeys (dset d k v))"
proof (cases "k \<in> set (map fst d)")
  case True
  then show "distinct (dkeys d) \<Longrightarrow> distinct (dkeys (dset d k v))"
    by (simp only: dkeys_dset_present)
next
  case False
  then show "distinct (dkeys d) \<Longrightarrow> distinct (dkeys (dset d k v))"
    by (simp add: dkeys_dset_absent) (simp add: dkeys_def)
qed

lemma keys_alias_fold:
  "set (dkeys (foldl (\<lambda>acc (k, v). dset acc (alias_key (py_strip k)) (py_strip v)) out items))
   = set (dkeys out) \<union> (\<lambda>(k, v). alias_key (py_strip k)) ` set items"
  by (induction items arbitrary: out) (auto simp: dkeys_dset)

lemma distinct_alias_fold:
  "distinct (dkeys out) \<Longrightarrow>
   distinct (dkeys (foldl (\<lambda>acc (k, v). dset acc (alias_key (py_strip k)) (py_strip v)) out items))"
  by (induction items arbitrary: out) (auto simp: distinct_dset)

lemma alias_names:
  "py_lower ''describedby'' \<in> set describedby_spellings"
  "py_lower ''describedby'' \<notin> set checked_spellings"
  "py_lower ''checked'' \<in> set checked_spellings"
  "py_lower ''checked'' \<notin> set describedby_spellings"
  "py_strip ''describedby'' = ''describedby''"
  "py_strip ''checked'' = ''checked''"
  by code_simp+

lemma alias_key_cases:
  "(py_lower (alias_key ks) \<in> set describedby_spellings \<longrightarrow> alias_key ks = ''describedby'')
   \<and> (py_lower (alias_key ks) \<in> set checked_spellings \<longrightarrow> alias_key ks = ''checked'')"
proof (cases "py_lower ks \<in> set describedby_spellings")
  case True
  then show ?thesis
    using alias_names by (simp add: alias_key_def)
next
  case False
  then show ?thesis
    using alias_names by (cases "py_lower ks \<in> set checked_spellings") (simp_all add: alias_key_def)
qed

lemma alias_key_idem: "alias_key (alias_key ks) = alias_key ks"
  using alias_key_cases [of ks] unfolding alias_key_def [of "alias_key ks"] by presburger

lemma strip_alias_key: "py_strip ks = ks \<Longrightarrow> py_strip (alias_key ks) = alias_key ks"
  using alias_names(5,6) unfolding alias_key_def by presburger

lemma set_dset: "(a, b) \<in> set (dset d k v) \<Longrightarrow> (a, b) = (k, v) \<or> (a, b) \<in> set d"
  by (auto simp: dset_def split: if_splits)

lemma normal_dset:
  assumes "normal_dict d" "py_strip k = k" "k \<noteq> []" "alias_key k = k" "py_strip v = v"
  shows "normal_dict (dset d k v)"
  using assms set_dset [of _ _ d k v]
  unfolding normal_dict_def by (fast intro: distinct_dset)

lemma alias_key_nonempty: "ks \<noteq> [] \<Longrightarrow> alias_key ks \<noteq> []"
  by (simp add: alias_key_def)

lemma normal_alias_fold:
  "normal_dict out \<Longrightarrow> nonblank_keys items \<Longrightarrow>
   normal_dict (foldl (\<lambda>acc (k, v). dset acc (alias_key (py_strip k)) (py_strip v)) out items)"
proof (induction items arbitrary: out)
  case Nil
  then show ?case by simp
next
  case (Cons kv items)
  obtain k v where kv: "kv = (k, v)"
    by (cases kv)
  from Cons.prems(2) have k: "py_strip k \<noteq> []" and rest: "nonblank_keys items"
    by (simp_all add: nonblank_keys_def kv)
  have "normal_dict (dset out (alias_key (py_strip k)) (py_strip v))"
    using Cons.prems(1) k
    by (intro normal_dset) (simp_all add: strip_alias_key alias_key_nonempty alias_key_idem)
  from Cons.IH [OF this rest] show ?case
    by (simp add: kv)
qed

lemma alias_fold_normal:
  "normal_dict d \<Longrightarrow> set (dkeys acc) \<inter> set (dkeys d) = {} \<Longrightarrow>
   foldl (\<lambda>acc (k, v). dset acc (alias_key (py_strip k)) (py_strip v)) acc d = acc @ d"
proof (induction d arbitrary: acc)
  case Nil
  then show ?case by simp
next
  case (Cons kv d)
  obtain k v where kv: "kv = (k, v)"
    by (cases kv)
  from Cons.prems(1) have entry: "py_strip k = k" "alias_key k = k" "py_strip v = v"
    and rest: "normal_dict d" and fresh: "k \<notin> set (dkeys d)"
    by (auto simp: normal_dict_def kv dkeys_def)
  from Cons.prems(2) have absent: "k \<notin> set (map fst acc)"
    by (auto simp: kv dkeys_def)
  then have step: "dset acc (alias_key (py_strip k)) (py_strip v) = acc @ [(k, v)]"
    by (simp add: entry dset_def)
  have "set (dkeys (acc @ [(k, v)])) \<inter> set (dkeys d) = {}"
    using Cons.prems(2) fresh by (auto simp: kv dkeys_def)
  from Cons.IH [OF rest this] show ?case
    by (simp add: kv step)
qed

lemma nonblank_normal: "normal_dict d \<Longrightarrow> nonblank_keys d"
  by (auto simp: normal_dict_def nonblank_keys_def list_all_iff)

text \<open>
  On a structured mapping without blank keys the loop is the fold of the alias
  normalisation, and running it on its own result changes nothing.
\<close>

lemma ia2_dict_loop_idempotent:
  assumes "nonblank_keys items"
  shows "ia2_dict_loop (ia2_dict_loop items None []) None [] = ia2_dict_loop items None []"
proof -
  let ?d = "foldl (\<lambda>acc (k, v). dset acc (alias_key (py_strip k)) (py_strip v)) [] items"
  have "normal_dict []"
    by (simp add: normal_dict_def dkeys_def)
  then have normal: "normal_dict ?d"
    using assms by (rule normal_alias_fold)
  then have "foldl (\<lambda>acc (k, v). dset acc (alias_key (py_strip k)) (py_strip v)) [] ?d = [] @ ?d"
    by (rule alias_fold_normal) (simp add: dkeys_def)
  then show ?thesis
    using assms nonblank_normal [OF normal] by (simp add: dict_loop_nonblank)
qed

lemma dict_loop_keys:
  assumes "nonblank_keys items"
  shows "set (dkeys (ia2_dict_loop items None []))
         = (\<lambda>(k, v). alias_key (py_strip k)) ` set items"
proof -
  have "set (dkeys ([] :: attrs)) = {}"
    by (simp add: dkeys_def)
  then show ?thesis
    using assms keys_alias_fold [of "[]" items] by (simp only: dict_loop_nonblank) simp
qed

lemma str_loop_keys:
  "set (dkeys (ia2_str_loop ps out))
   = set (dkeys out) \<union> (\<lambda>p. alias_describedby (part_key p)) ` {p \<in> set ps. CHR '':'' \<in> set p}"
  by (induction ps out rule: ia2_str_loop.induct)
     (auto simp: Let_def dkeys_dset alias_describedby_def part_key_def)

lemma alias_describedby_cases:
  "py_lower (alias_describedby ks) \<in> set describedby_spellings \<Longrightarrow>
   alias_describedby ks = ''describedby''"
  using alias_names(1) by (cases "py_lower ks \<in> set describedby_spellings")
    (simp_all add: alias_describedby_def)

lemma formcontrolname_loop_frame:
  "py_lower k \<noteq> ''formcontrolname'' \<Longrightarrow> k \<noteq> ''formcontrolname'' \<Longrightarrow>
   dget (formcontrolname_loop ks out) k = dget out k"
  by (induction ks out rule: formcontrolname_loop.induct) (auto simp: dget_dset dget_dpop)

lemma link_refinement_frame:
  "k \<noteq> ''href'' \<Longrightarrow> k \<noteq> ''value'' \<Longrightarrow> dget (link_refinement out) k = dget out k"
  by (simp add: link_refinement_def Let_def dget_dset dget_dpop)

lemma enrich_aria_frame:
  "k \<noteq> ''orientation'' \<Longrightarrow> k \<noteq> ''valuetext'' \<Longrightarrow> dget (enrich_aria out) k = dget out k"
  by (simp add: enrich_aria_def Let_def dget_dset)

lemma enrich_value_frame:
  "k \<noteq> ''value'' \<Longrightarrow> enrich_value n out = Some out' \<Longrightarrow> dget out' k = dget out k"
  by (auto simp: enrich_value_def Let_def dget_dset split: if_splits read.splits)

lemma ia2_enrich_frame:
  assumes "k \<notin> set [''orientation'', ''valuetext'', ''formcontrolname'', ''value'', ''href'']"
    and "py_lower k \<noteq> ''formcontrolname''"
  shows "dget (ia2_enrich n out) k = dget out k"
proof -
  let ?o = "formcontrolname_loop (dkeys (enrich_aria out)) (enrich_aria out)"
  have o: "dget ?o k = dget out k"
    using assms by (simp add: formcontrolname_loop_frame enrich_aria_frame)
  show ?thesis
  proof (cases "enrich_value n ?o")
    case None
    then show ?thesis
      by (simp add: ia2_enrich_def Let_def o)
  next
    case (Some out')
    with assms(1) have "dget (link_refinement out') k = dget ?o k"
      by (simp add: link_refinement_frame enrich_value_frame [OF _ Some])
    with Some show ?thesis
      by (simp add: ia2_enrich_def Let_def o)
  qed
qed

lemma alias_not_enriched:
  assumes "py_lower k \<in> set describedby_spellings \<union> set checked_spellings"
  shows "k \<notin> set [''orientation'', ''valuetext'', ''formcontrolname'', ''value'', ''href'']
         \<and> py_lower k \<noteq> ''formcontrolname''"
proof -
  have "py_lower x \<notin> set describedby_spellings \<union> set checked_spellings"
    if "x \<in> set [''orientation'', ''valuetext'', ''formcontrolname'', ''value'', ''href'']" for x
  proof -
    have "py_lower ''orientation'' = ''orientation''" "py_lower ''valuetext'' = ''valuetext''"
      "py_lower ''formcontrolname'' = ''formcontrolname''" "py_lower ''value'' = ''value''"
      "py_lower ''href'' = ''href''"
      by code_simp+
    with that show ?thesis
      by (auto simp: describedby_spellings_def checked_spellings_def)
  qed
  moreover have "''formcontrolname'' \<notin> set describedby_spellings \<union> set checked_spellings"
    by (simp add: describedby_spellings_def checked_spellings_def)
  ultimately show ?thesis
    using assms by metis
qed

lemma dkeys_dget: "k \<in> set (dkeys d) \<longleftrightarrow> dget d k \<noteq> None"
  by (simp add: dkeys_def dget_def map_of_eq_None_iff)

text \<open>
  What does hold of alias normalisation. From a structured mapping without blank
  keys, a key that means \<open>describedby\<close> or \<open>checked\<close> is extracted under that name,
  and no other spelling of either is a key of the extracted mapping.
\<close>

lemma structured_alias_collapse:
  assumes "IA2Attributes n = IA2_Dict items" "nonblank_keys items"
  shows "(\<forall>(k, v) \<in> set items.
            (py_lower (py_strip k) \<in> set describedby_spellings \<longrightarrow> dhas (ia2_attrs n) ''describedby'')
            \<and> (py_lower (py_strip k) \<in> set checked_spellings \<longrightarrow> dhas (ia2_attrs n) ''checked''))
         \<and> (\<forall>k' \<in> set (dkeys (ia2_attrs n)).
               (py_lower k' \<in> set describedby_spellings \<longrightarrow> k' = ''describedby'')
               \<and> (py_lower k' \<in> set checked_spellings \<longrightarrow> k' = ''checked''))"
proof -
  let ?raw = "ia2_dict_loop items None []"
  have attrs: "ia2_attrs n = ia2_enrich n ?raw"
    by (simp add: ia2_attrs_def ia2_raw_def assms(1))
  have keys: "set (dkeys ?raw) = (\<lambda>(k, v). alias_key (py_strip k)) ` set items"
    using assms(2) by (rule dict_loop_keys)
  have same: "dget (ia2_attrs n) k = dget ?raw k"
    if "py_lower k \<in> set describedby_spellings \<union> set checked_spellings" for k
    using alias_not_enriched [OF that] unfolding attrs by (intro ia2_enrich_frame) simp_all
  have present: "dhas (ia2_attrs n) (alias_key (py_strip k))"
    if "(k, v) \<in> set items"
      "py_lower (py_strip k) \<in> set describedby_spellings \<union> set checked_spellings" for k v
  proof -
    have "py_lower (alias_key (py_strip k)) \<in> set describedby_spellings \<union> set checked_spellings"
      using that(2) alias_names by (auto simp: alias_key_def)
    from same [OF this] have "dget (ia2_attrs n) (alias_key (py_strip k))
                              = dget ?raw (alias_key (py_strip k))" .
    moreover have "alias_key (py_strip k) \<in> set (dkeys ?raw)"
      using that(1) unfolding keys by force
    ultimately show ?thesis
      by (simp add: dhas_dget dkeys_dget)
  qed
  have first: "(py_lower (py_strip k) \<in> set describedby_spellings \<longrightarrow> dhas (ia2_attrs n) ''describedby'')
            \<and> (py_lower (py_strip k) \<in> set checked_spellings \<longrightarrow> dhas (ia2_attrs n) ''checked'')"
    if "(k, v) \<in> set items" for k v
    using present [OF that] alias_names
    by (auto simp: alias_key_def describedby_spellings_def checked_spellings_def)
  have second: "(py_lower k' \<in> set describedby_spellings \<longrightarrow> k' = ''describedby'')
               \<and> (py_lower k' \<in> set checked_spellings \<longrightarrow> k' = ''checked'')"
    if "k' \<in> set (dkeys (ia2_attrs n))" for k'
  proof (cases "py_lower k' \<in> set describedby_spellings \<union> set checked_spellings")
    case True
    from same [OF True] that have "k' \<in> set (dkeys ?raw)"
      by (simp add: dkeys_dget)
    then obtain k v where "k' = alias_key (py_strip k)"
      unfolding keys by auto
    then show ?thesis
      using alias_key_cases [of "py_strip k"] by simp
  next
    case False
    then show ?thesis by simp
  qed
  show ?thesis
    using first second by blast
qed

text \<open>
  From a string of entries, a key that means \<open>describedby\<close> is extracted under that
  name, and no other spelling of it is a key of the extracted mapping.
\<close>

lemma string_alias_collapse:
  assumes "IA2Attributes n = IA2_Str s" "py_strip s \<noteq> []"
  shows "(\<forall>p \<in> set (filter (\<lambda>p. p \<noteq> []) (map py_strip (py_split (CHR '';'') s))).
            CHR '':'' \<in> set p \<and> py_lower (part_key p) \<in> set describedby_spellings
            \<longrightarrow> dhas (ia2_attrs n) ''describedby'')
         \<and> (\<forall>k' \<in> set (dkeys (ia2_attrs n)).
               py_lower k' \<in> set describedby_spellings \<longrightarrow> k' = ''describedby'')"
proof -
  let ?ps = "filter (\<lambda>p. p \<noteq> []) (map py_strip (py_split (CHR '';'') s))"
  let ?raw = "ia2_str_loop ?ps []"
  have attrs: "ia2_attrs n = ia2_enrich n ?raw"
    using assms by (simp add: ia2_attrs_def ia2_raw_def)
  have keys: "set (dkeys ?raw)
              = (\<lambda>p. alias_describedby (part_key p)) ` {p \<in> set ?ps. CHR '':'' \<in> set p}"
    using str_loop_keys [of ?ps "[]"] by (simp add: dkeys_def)
  have same: "dget (ia2_attrs n) k = dget ?raw k" if "py_lower k \<in> set describedby_spellings" for k
  proof -
    from that have "py_lower k \<in> set describedby_spellings \<union> set checked_spellings"
      by simp
    from alias_not_enriched [OF this] show ?thesis
      unfolding attrs by (intro ia2_enrich_frame) simp_all
  qed
  have first: "dhas (ia2_attrs n) ''describedby''"
    if "p \<in> set ?ps" "CHR '':'' \<in> set p" "py_lower (part_key p) \<in> set describedby_spellings" for p
  proof -
    have "alias_describedby (part_key p) = ''describedby''"
      using that(3) by (simp add: alias_describedby_def)
    with that(1,2) have "''describedby'' \<in> set (dkeys ?raw)"
      unfolding keys by force
    moreover have "dget (ia2_attrs n) ''describedby'' = dget ?raw ''describedby''"
      using alias_names(1) by (rule same)
    ultimately show ?thesis
      by (simp add: dhas_dget dkeys_dget)
  qed
  have second: "k' = ''describedby''"
    if "k' \<in> set (dkeys (ia2_attrs n))" "py_lower k' \<in> set describedby_spellings" for k'
  proof -
    from same [OF that(2)] that(1) have "k' \<in> set (dkeys ?raw)"
      by (simp add: dkeys_dget)
    then obtain p where "k' = alias_describedby (part_key p)"
      unfolding keys by auto
    with that(2) show ?thesis
      using alias_describedby_cases by simp
  qed
  show ?thesis
    using first second by blast
qed


section \<open>Properties of URL resolution\<close>

lemma ti_url_loop_http: "ti_url_loop rs = [] \<or> is_http_url (ti_url_loop rs)"
  by (induction rs rule: ti_url_loop.induct) (auto simp: Let_def)

lemma am_loop_http: "am_loop hs = [] \<or> is_http_url (am_loop hs)"
  by (induction hs rule: am_loop.induct) (auto simp: Let_def)

lemma ti_url_loop_absent:
  "\<forall>r \<in> set rs. \<forall>v. r = Got v \<longrightarrow> \<not> is_http_url (py_strip (safe v)) \<Longrightarrow> ti_url_loop rs = []"
  by (induction rs rule: ti_url_loop.induct) (auto simp: Let_def)

lemma am_loop_absent:
  "\<forall>r \<in> set hs. \<forall>v. r = Returns v \<longrightarrow> \<not> is_http_url (py_strip (safe v)) \<Longrightarrow> am_loop hs = []"
  by (induction hs rule: am_loop.induct) (auto simp: Let_def)

text \<open>
  Claim C10. Each of the three fallback accessors (the MSAA value, the tree
  interceptor's URL attributes, the app module's helpers) returns the empty string or
  a string that starts with \<open>http://\<close> or \<open>https://\<close>, whatever the host does,
  raising included; when no value the host yields is such a URL the accessor returns
  the empty string. The resolver returns an object's own non-blank \<open>href\<close> attribute
  as it is, whatever it looks like.
\<close>

theorem url_accessors_http_only:
  "(try_acc_value_url obj = [] \<or> is_http_url (try_acc_value_url obj))
   \<and> (try_tree_interceptor_url obj = [] \<or> is_http_url (try_tree_interceptor_url obj))
   \<and> (try_appmodule_url obj = [] \<or> is_http_url (try_appmodule_url obj))
   \<and> (\<forall>v. IAccessibleObject obj = Some (Got v) \<and> \<not> is_http_url (py_strip (safe v))
          \<longrightarrow> try_acc_value_url obj = [])
   \<and> (\<forall>ti. treeInterceptor obj = Some ti
          \<and> (\<forall>r \<in> set (ti_urls ti). \<forall>v. r = Got v \<longrightarrow> \<not> is_http_url (py_strip (safe v)))
          \<longrightarrow> try_tree_interceptor_url obj = [])
   \<and> (\<forall>hs. appModule obj = Some hs
          \<and> (\<forall>r \<in> set hs. \<forall>v. r = Returns v \<longrightarrow> \<not> is_http_url (py_strip (safe v)))
          \<longrightarrow> try_appmodule_url obj = [])
   \<and> (py_strip (dgets (ia2_attrs (node_of h i)) ''href'') \<noteq> [] \<longrightarrow>
        effective_href h i chain base = py_strip (dgets (ia2_attrs (node_of h i)) ''href''))"
proof -
  have "try_acc_value_url obj = [] \<or> is_http_url (try_acc_value_url obj)"
    by (auto simp: try_acc_value_url_def Let_def split: option.splits read.splits)
  moreover have "try_tree_interceptor_url obj = [] \<or> is_http_url (try_tree_interceptor_url obj)"
    using ti_url_loop_http by (auto simp: try_tree_interceptor_url_def split: option.splits)
  moreover have "try_appmodule_url obj = [] \<or> is_http_url (try_appmodule_url obj)"
    using am_loop_http by (auto simp: try_appmodule_url_def split: option.splits)
  moreover have "\<forall>v. IAccessibleObject obj = Some (Got v) \<and> \<not> is_http_url (py_strip (safe v))
          \<longrightarrow> try_acc_value_url obj = []"
    by (simp add: try_acc_value_url_def)
  moreover have "\<forall>ti. treeInterceptor obj = Some ti
          \<and> (\<forall>r \<in> set (ti_urls ti). \<forall>v. r = Got v \<longrightarrow> \<not> is_http_url (py_strip (safe v)))
          \<longrightarrow> try_tree_interceptor_url obj = []"
    by (simp add: try_tree_interceptor_url_def ti_url_loop_absent)
  moreover have "\<forall>hs. appModule obj = Some hs
          \<and> (\<forall>r \<in> set hs. \<forall>v. r = Returns v \<longrightarrow> \<not> is_http_url (py_strip (safe v)))
          \<longrightarrow> try_appmodule_url obj = []"
    by (simp add: try_appmodule_url_def am_loop_absent)
  moreover have "py_strip (dgets (ia2_attrs (node_of h i)) ''href'') \<noteq> [] \<longrightarrow>
        effective_href h i chain base = py_strip (dgets (ia2_attrs (node_of h i)) ''href'')"
    by (simp add: effective_href_def Let_def)
  ultimately show ?thesis
    by blast
qed

theorem url_accessors_http_only_witness:
  "try_acc_value_url ftp_link = []
   \<and> try_tree_interceptor_url ftp_link = []
   \<and> try_appmodule_url ftp_link = []
   \<and> \<not> is_http_url ''javascript:void(0)''
   \<and> effective_href (sample_host\<lparr>node_of := (\<lambda>i. ftp_link)\<rparr>) 0 [0] 0 = ''javascript:void(0)''"
proof -
  let ?h = "sample_host\<lparr>node_of := (\<lambda>i. ftp_link)\<rparr>"
  have acc: "IAccessibleObject ftp_link = Some (Got (Some ''ftp://example.com/''))
             \<and> \<not> is_http_url (py_strip (safe (Some ''ftp://example.com/'')))"
    by code_simp
  have href: "py_strip (dgets (ia2_attrs (node_of ?h 0)) ''href'') = ''javascript:void(0)''"
    by code_simp
  have ti: "try_tree_interceptor_url ftp_link = []"
    by code_simp
  have am: "try_appmodule_url ftp_link = []"
    by code_simp
  have nohttp: "\<not> is_http_url ''javascript:void(0)''"
    by code_simp
  have "try_acc_value_url ftp_link = []"
    using url_accessors_http_only [of ftp_link ?h 0 "[0]" 0] acc by blast
  moreover have "effective_href ?h 0 [0] 0 = ''javascript:void(0)''"
    using url_accessors_http_only [of ftp_link ?h 0 "[0]" 0] href by simp
  ultimately show ?thesis
    using ti am nohttp by blast
qed


section \<open>What each step of the inference engine leaves alone\<close>


lemma step_tag_frame: "k \<noteq> ''tag'' \<Longrightarrow> dget (step_tag n out) k = dget out k"
  by (simp add: step_tag_def dict_simps)


lemma step_accessible_name_frame:
  "k \<noteq> ''accessible-name'' \<Longrightarrow> dget (step_accessible_name n out) k = dget out k"
  by (simp add: step_accessible_name_def dict_simps)

lemma step_name_from_frame:
  "k \<noteq> ''accessible-name-from'' \<Longrightarrow> dget (step_name_from cf out) k = dget out k"
  by (simp add: step_name_from_def dict_simps)

lemma step_explicit_name_frame:
  "k \<noteq> ''explicit-name-from'' \<Longrightarrow> dget (step_explicit_name cf out) k = dget out k"
  by (simp add: step_explicit_name_def dict_simps)

lemma step_expanded_frame: "k \<noteq> ''expanded'' \<Longrightarrow> dget (step_expanded n out) k = dget out k"
  by (simp add: step_expanded_def dict_simps)


lemma step_selected_frame: "k \<noteq> ''selected'' \<Longrightarrow> dget (step_selected n out) k = dget out k"
  by (simp add: step_selected_def dict_simps)


lemma step_checked_frame: "k \<noteq> ''checked'' \<Longrightarrow> dget (step_checked n out) k = dget out k"
  by (simp add: step_checked_def dict_simps)





lemma pressed_norm_frame: "k \<noteq> ''pressed'' \<Longrightarrow> dget (pressed_norm out) k = dget out k"
  by (simp add: pressed_norm_def Let_def dget_dset)






lemma step_table_frame:
  "k \<noteq> ''colspan'' \<Longrightarrow> k \<noteq> ''rowspan'' \<Longrightarrow> k \<noteq> ''layout-guess'' \<Longrightarrow>
   dget (step_table n out) k = dget out k"
  by (simp add: step_table_def step_layout_guess_def step_rowspan_def step_colspan_def dget_dset)


lemma step_tabindex_frame: "k \<noteq> ''tabindex'' \<Longrightarrow> dget (step_tabindex n out) k = dget out k"
  by (simp add: step_tabindex_def dict_simps)

lemma form_checked_frame: "k \<noteq> ''checked'' \<Longrightarrow> dget (form_checked out) k = dget out k"
  by (simp add: form_checked_def Let_def dict_simps)

lemma form_tooltip_frame:
  "k \<noteq> ''label'' \<Longrightarrow> k \<noteq> ''title'' \<Longrightarrow> dget (form_tooltip out) k = dget out k"
  by (simp add: form_tooltip_def dict_simps)

lemma form_field_frame: "k \<noteq> ''fsFormField'' \<Longrightarrow> dget (form_field t out) k = dget out k"
  by (simp add: form_field_def Let_def dict_simps)




lemma form_type_name_frame:
  "k \<noteq> ''type'' \<Longrightarrow> k \<noteq> ''name'' \<Longrightarrow> dget (form_type_name t out) k = dget out k"
  by (simp add: form_type_name_def form_type_def form_name_def dget_dset)


lemma form_multiline_frame: "k \<noteq> ''multiline'' \<Longrightarrow> dget (form_multiline t out) k = dget out k"
  by (simp add: form_multiline_def dict_simps)


lemma form_required_frame: "k \<noteq> ''required'' \<Longrightarrow> dget (form_required n out) k = dget out k"
  by (simp add: form_required_def dict_simps)

lemma form_label_frame:
  "k \<noteq> ''label'' \<Longrightarrow> k \<noteq> ''title'' \<Longrightarrow> k \<noteq> ''description'' \<Longrightarrow>
   dget (form_label n out) k = dget out k"
  by (simp add: form_label_def Let_def dict_simps)

lemma form_label_present:
  "dget out ''label'' \<noteq> None \<Longrightarrow> form_label n out = out"
  by (simp add: form_label_def dict_simps)

lemma infer_form_attrs_frame:
  assumes "k \<notin> set [''checked'', ''label'', ''title'', ''fsFormField'', ''description'', ''type'',
                       ''name'', ''multiline'', ''required'']"
  shows "dget (infer_form_attrs n out) k = dget out k"
  using assms
  by (simp add: infer_form_attrs_def Let_def form_label_frame form_required_frame
      form_multiline_frame form_type_name_frame form_field_frame form_tooltip_frame
      form_checked_frame)



lemma combobox_frame:
  "k \<noteq> ''expanded'' \<Longrightarrow> dget (infer_expanded_for_combobox h obj chain out) k = dget out k"
  by (simp add: infer_expanded_for_combobox_def Let_def dict_simps)

lemma step_strip_noise_frame:
  "k \<noteq> ''MSAA Role'' \<Longrightarrow> k \<noteq> ''readonly'' \<Longrightarrow> dget (step_strip_noise out) k = dget out k"
  by (simp add: step_strip_noise_def Let_def dict_simps)


lemma step_describedby_text_frame:
  "k \<noteq> ''describedby-text'' \<Longrightarrow> dget (step_describedby_text out) k = dget out k"
  by (simp add: step_describedby_text_def dict_simps)


section \<open>Properties of the inference engine\<close>

lemma augment_structured:
  assumes "structured_source (node_of h obj)"
  shows "\<exists>ia2n. augment_attrs_for_readability h obj chain attrs base
           = Inr (augment_finish h obj chain
                    (augment_states (node_of h obj) (augment_names (node_of h obj) ia2n attrs)))"
  using assms
  by (auto simp: augment_attrs_for_readability_def ia2n_get_def structured_source_def
      split: ia2_source.splits)

text \<open>
  On an object whose \<open>IA2Attributes\<close> is a non-empty string the engine raises: \<open>get\<close> is
  called on the string.
\<close>

lemma augment_raises_on_str:
  "IA2Attributes (node_of h obj) = IA2_Str s \<Longrightarrow> s \<noteq> [] \<Longrightarrow>
   augment_attrs_for_readability h obj chain attrs base = Inl AttributeError"
  by (simp add: augment_attrs_for_readability_def ia2n_get_def)

lemma augment_names_frame:
  assumes "k \<notin> set [''tag'', ''accessible-name'', ''accessible-name-from'', ''explicit-name-from'']"
  shows "dget (augment_names n ia2n attrs) k = dget attrs k"
  using assms
  by (simp add: augment_names_def Let_def step_explicit_name_frame step_name_from_frame
      step_accessible_name_frame step_tag_frame)


lemma before_checked_frame:
  assumes "k \<notin> set [''tag'', ''accessible-name'', ''accessible-name-from'', ''explicit-name-from'',
                       ''expanded'', ''selected'']"
  shows "dget (step_selected n (step_expanded n (augment_names n ia2n attrs))) k = dget attrs k"
  using assms
  by (simp add: step_selected_frame step_expanded_frame augment_names_frame)

lemma after_pressed_frame:
  assumes "k \<notin> set [''colspan'', ''rowspan'', ''layout-guess'', ''tabindex'', ''checked'', ''label'',
                       ''title'', ''fsFormField'', ''description'', ''type'', ''name'', ''multiline'',
                       ''required'', ''expanded'', ''MSAA Role'', ''readonly'', ''describedby-text'']"
  shows "dget (augment_finish h obj chain (step_tabindex n (step_table n out))) k = dget out k"
  using assms
  by (simp add: augment_finish_def step_describedby_text_frame step_strip_noise_frame
      combobox_frame infer_form_attrs_frame step_tabindex_frame step_table_frame)










text \<open>
  Claim C1, as stated, fails: for an object that is not a toggle the hint read from
  \<open>aria-pressed\<close> is kept as the pressed value, as the comment in the source says
  ("keep the aria value"). The \<open>span\<close> above comes out with \<open>pressed=true\<close>.
\<close>

theorem aria_pressed_span_link_counterexample:
  "ia2_attrs span_link = [(''tag'', ''span''), (''role'', ''link''), (''aria-pressed'', ''true'')]
   \<and> \<not> is_toggle span_link (ia2_attrs span_link)
   \<and> augment_attrs_for_readability (host_of span_link) 0 [0] (ia2_attrs span_link) 0
     = Inr [(''tag'', ''span''), (''role'', ''link''), (''accessible-name'', ''More''),
            (''pressed'', ''true'')]"
  by code_simp

lemma pressed_from_aria_text:
  "pressed_from_aria out = Some b \<Longrightarrow>
   py_lower (py_strip (bool_text b)) \<in> set (if b then [''1'', ''true'', ''yes''] else [''0'', ''false'', ''no''])"
  by (cases b) (simp_all add: bool_text_def py_lower_def lower_char_def py_strip_def py_lstrip_def
      py_rstrip_def is_space_def)

lemma step_pressed_not_toggle:
  assumes "py_lower (py_strip (dgets out ''aria-pressed'')) \<noteq> []"
    and "\<not> is_toggle n out" and "\<not> dhas out ''pressed''"
    and "py_lower (dgets out ''role'') \<noteq> ''tab''" and "py_lower (dgets out ''xml-roles'') \<noteq> ''tab''"
  shows "dget (step_pressed n out) ''aria-pressed'' = None
         \<and> dget (step_pressed n out) ''pressed'' = map_option bool_text (pressed_from_aria out)"
proof -
  let ?hint = "pressed_from_aria out"
  let ?o1 = "pressed_pop out"
  have o1: "?o1 = dpop out ''aria-pressed''"
    using assms(1) by (simp add: pressed_pop_def)
  have same: "dgets ?o1 k = dgets out k" "dhas ?o1 k = dhas out k" "dget ?o1 k = dget out k"
    if "k \<noteq> ''aria-pressed''" for k
    using that by (simp_all add: o1 dict_simps)
  have absent: "dget ?o1 ''pressed'' = None"
    using assms(3) by (simp add: same dhas_dget)
  have "is_toggle n ?o1 = is_toggle n out"
    by (simp add: is_toggle_def same)
  with assms(2,3) have o2: "pressed_toggle n ?hint ?o1 = ?o1"
    by (simp add: pressed_toggle_def)
  have o3: "pressed_tab ?o1 = ?o1"
    using assms(4,5) by (simp add: pressed_tab_def same)
  have o4: "dget (pressed_hint ?hint ?o1) k
            = (if k = ''pressed'' then map_option bool_text ?hint else dget ?o1 k)" for k
    using absent by (auto simp: pressed_hint_def dget_dset dhas_dget split: option.splits)
  have norm: "dget (pressed_norm (pressed_hint ?hint ?o1)) ''pressed'' = map_option bool_text ?hint"
  proof (cases ?hint)
    case None
    then show ?thesis
      using o4 [of "''pressed''"] by (simp add: pressed_norm_def dhas_dget)
  next
    case (Some b)
    with o4 [of "''pressed''"] have "dget (pressed_hint ?hint ?o1) ''pressed'' = Some (bool_text b)"
      by simp
    then show ?thesis
      using Some pressed_from_aria_text [OF Some]
      by (cases b) (auto simp: pressed_norm_def Let_def dict_simps bool_text_def)
  qed
  have "dget (pressed_norm (pressed_hint ?hint ?o1)) ''aria-pressed'' = None"
    using o4 [of "''aria-pressed''"] by (simp add: pressed_norm_frame o1 dget_dpop)
  with norm show ?thesis
    by (simp add: step_pressed_def Let_def o2 o3)
qed

text \<open>
  Claim C1, amended. For an object that exposes a non-blank \<open>aria-pressed\<close> value, is
  not recognised as a toggle (by \<open>role\<close>, \<open>xml-roles\<close> or the host's role), is not a tab
  and has no \<open>pressed\<close> entry (its raw attribute source a structured mapping, or none),
  the augmented mapping has no \<open>aria-pressed\<close> key; it has a \<open>pressed\<close> key exactly when
  the hint is one of the spellings of true (\<open>1\<close>, \<open>true\<close>, \<open>yes\<close>) or of false (\<open>0\<close>,
  \<open>false\<close>, \<open>no\<close>), with the value \<open>true\<close> or \<open>false\<close> accordingly.
\<close>

theorem aria_pressed_hint_kept:
  assumes "structured_source (node_of h obj)"
    and "py_lower (py_strip (dgets attrs ''aria-pressed'')) \<noteq> []"
    and "\<not> is_toggle (node_of h obj) attrs" and "\<not> dhas attrs ''pressed''"
    and "py_lower (dgets attrs ''role'') \<noteq> ''tab''"
    and "py_lower (dgets attrs ''xml-roles'') \<noteq> ''tab''"
  shows "\<exists>out. augment_attrs_for_readability h obj chain attrs base = Inr out
           \<and> dget out ''aria-pressed'' = None
           \<and> dget out ''pressed'' = map_option bool_text (pressed_from_aria attrs)"
proof -
  let ?n = "node_of h obj"
  from augment_structured [OF assms(1)] obtain ia2n where
    aug: "augment_attrs_for_readability h obj chain attrs base
          = Inr (augment_finish h obj chain (augment_states ?n (augment_names ?n ia2n attrs)))"
    by blast
  let ?pre = "step_checked ?n (step_selected ?n (step_expanded ?n (augment_names ?n ia2n attrs)))"
  have same: "dget ?pre k = dget attrs k"
    if "k \<in> set [''role'', ''xml-roles'', ''aria-pressed'', ''pressed'']" for k
  proof -
    have "dget ?pre k = dget (step_selected ?n (step_expanded ?n (augment_names ?n ia2n attrs))) k"
      using that by (intro step_checked_frame) auto
    also have "\<dots> = dget attrs k"
      using that by (intro before_checked_frame) auto
    finally show ?thesis .
  qed
  have hint: "pressed_from_aria ?pre = pressed_from_aria attrs"
    by (simp add: pressed_from_aria_def dgets_dget same)
  have "dget (step_pressed ?n ?pre) ''aria-pressed'' = None
        \<and> dget (step_pressed ?n ?pre) ''pressed'' = map_option bool_text (pressed_from_aria ?pre)"
    using assms(2-6) by (intro step_pressed_not_toggle) (simp_all add: is_toggle_def dict_simps same)
  then have "dget (augment_finish h obj chain (augment_states ?n (augment_names ?n ia2n attrs)))
               ''aria-pressed'' = None
             \<and> dget (augment_finish h obj chain (augment_states ?n (augment_names ?n ia2n attrs)))
                 ''pressed'' = map_option bool_text (pressed_from_aria attrs)"
    by (simp add: augment_states_def after_pressed_frame hint)
  with aug show ?thesis
    by simp
qed

theorem aria_pressed_hint_kept_witness:
  "\<exists>out. augment_attrs_for_readability (host_of span_link) 0 [0] (ia2_attrs span_link) 0 = Inr out
         \<and> dget out ''aria-pressed'' = None \<and> dget out ''pressed'' = Some ''true''"
proof -
  have pre: "structured_source (node_of (host_of span_link) 0)"
      "py_lower (py_strip (dgets (ia2_attrs span_link) ''aria-pressed'')) \<noteq> []"
      "\<not> is_toggle (node_of (host_of span_link) 0) (ia2_attrs span_link)"
      "\<not> dhas (ia2_attrs span_link) ''pressed''"
      "py_lower (dgets (ia2_attrs span_link) ''role'') \<noteq> ''tab''"
      "py_lower (dgets (ia2_attrs span_link) ''xml-roles'') \<noteq> ''tab''"
    by code_simp+
  have hint: "map_option bool_text (pressed_from_aria (ia2_attrs span_link)) = Some ''true''"
    by code_simp
  show ?thesis
    using aria_pressed_hint_kept [OF pre, of "[0]" 0] by (simp add: hint)
qed











section \<open>Properties of the report\<close>

text \<open>
  Claim C7. When a candidate object is found and the web-context check has nothing to
  go by (neither the candidate nor the focus object has a browse-mode tree
  interceptor, neither chain holds an object tagged \<open>#document\<close>, and no document URL
  can be retrieved for either), the report builder returns the fixed message, flagged
  as a message and not as a report, in the plain and in the advanced mode.
\<close>

theorem build_report_not_web_context:
  assumes "get_candidate_object h = Some base"
    and "\<not> is_browse_mode_obj (node_of h base)"
    and "\<not> has_document h (dom_chain_with_tags h (Some base) default_max_depth)"
    and "document_url h base (dom_chain_with_tags h (Some base) default_max_depth) = []"
    and "\<forall>f. getFocusObject h = Some f \<longrightarrow>
           \<not> is_browse_mode_obj (node_of h f)
           \<and> \<not> has_document h (dom_chain_with_tags h (Some f) default_max_depth)
           \<and> document_url h f (dom_chain_with_tags h (Some f) default_max_depth) = []"
  shows "\<not> is_web_context h base
         \<and> build_report h advanced
           = Inr (Message (gettext h
               ''HTML Element Inspector works only when Browse Mode (virtual buffer) is available.''))"
proof -
  have "\<not> is_web_context h base"
    using assms(2-5) by (auto simp: is_web_context_def Let_def split: option.splits)
  with assms(1) show ?thesis
    by (simp add: build_report_def not_applicable_def)
qed

theorem build_report_not_web_context_witness:
  "get_candidate_object desktop_host = Some 0
   \<and> build_report desktop_host False
     = Inr (Message ''HTML Element Inspector works only when Browse Mode (virtual buffer) is available.'')
   \<and> build_report desktop_host True
     = Inr (Message ''HTML Element Inspector works only when Browse Mode (virtual buffer) is available.'')"
proof -
  have chain0: "dom_chain_with_tags desktop_host (Some 0) default_max_depth = []"
    by code_simp
  have nodoc: "\<not> has_document desktop_host []"
    by code_simp
  have nourl: "document_url desktop_host 0 [] = []"
    by code_simp
  have cand: "get_candidate_object desktop_host = Some 0"
    by code_simp
  have nobrowse: "\<not> is_browse_mode_obj (node_of desktop_host 0)"
    by code_simp
  note pre = cand nobrowse nodoc [folded chain0] nourl [folded chain0]
  have "getFocusObject desktop_host = Some 0"
    by code_simp
  then have focus: "\<forall>f. getFocusObject desktop_host = Some f \<longrightarrow>
           \<not> is_browse_mode_obj (node_of desktop_host f)
           \<and> \<not> has_document desktop_host (dom_chain_with_tags desktop_host (Some f) default_max_depth)
           \<and> document_url desktop_host f (dom_chain_with_tags desktop_host (Some f) default_max_depth) = []"
    using pre by simp
  have msg: "gettext desktop_host s = s" for s
    by (simp add: desktop_host_def host_of_def)
  show ?thesis
    using build_report_not_web_context [OF pre focus, of False]
      build_report_not_web_context [OF pre focus, of True] pre(1)
    by (simp add: msg)
qed














end
